theory Spec2Isabelle
  imports Main "HOL-Library.AList"
begin

text \<open>
  The development loop of the site generator \<^verbatim>\<open>nibl\<close> and its build pipeline: the
  live-reload wrapper around the file server, the hub of websocket clients, the loop
  that watches the project and rebuilds it, and the walk that turns the content tree
  into pages. Each part is first written down as functions that follow the Go source,
  then its properties are proved.
\<close>

section \<open>Byte strings and the library functions the program calls on them\<close>

text \<open>
  A Go \<^verbatim>\<open>[]byte\<close> and a Go \<^verbatim>\<open>string\<close> are both sequences of bytes; they are
  modelled by \<^typ>\<open>string\<close> (a list of 8-bit characters), so \<^const>\<open>length\<close> is Go's
  \<^verbatim>\<open>len\<close>.
\<close>

type_synonym bytes = string

text \<open>\<^verbatim>\<open>strings.HasPrefix\<close>, \<^verbatim>\<open>strings.HasSuffix\<close>, \<^verbatim>\<open>strings.TrimSuffix\<close>.\<close>

definition HasPrefix :: "bytes \<Rightarrow> bytes \<Rightarrow> bool" where
  "HasPrefix s p = (length p \<le> length s \<and> take (length p) s = p)"

definition HasSuffix :: "bytes \<Rightarrow> bytes \<Rightarrow> bool" where
  "HasSuffix s x = (length x \<le> length s \<and> drop (length s - length x) s = x)"

definition TrimSuffix :: "bytes \<Rightarrow> bytes \<Rightarrow> bytes" where
  "TrimSuffix s x = (if HasSuffix s x then take (length s - length x) s else s)"

text \<open>
  \<^verbatim>\<open>bytes.Index(s, sep)\<close>: the index of the first instance of \<open>sep\<close> in \<open>s\<close>;
  Go's \<open>-1\<close> is \<open>None\<close>.
\<close>

fun Index :: "bytes \<Rightarrow> bytes \<Rightarrow> nat option" where
  "Index [] sep = (if sep = [] then Some 0 else None)"
| "Index (c # s) sep =
     (if HasPrefix (c # s) sep then Some 0 else map_option Suc (Index s sep))"

text \<open>
  \<^verbatim>\<open>bytes.Replace(s, old, new, n)\<close> for \<open>n \<ge> 0\<close> and a non-empty \<open>old\<close>: the first
  \<open>n\<close> non-overlapping instances of \<open>old\<close> are replaced, searching from the left, each
  search resuming after the instance just replaced. With no instance left the rest of
  \<open>s\<close> is copied unchanged.
\<close>

fun Replace :: "bytes \<Rightarrow> bytes \<Rightarrow> bytes \<Rightarrow> nat \<Rightarrow> bytes" where
  "Replace s old new 0 = s"
| "Replace s old new (Suc n) =
     (case Index s old of
        None \<Rightarrow> s
      | Some j \<Rightarrow> take j s @ new @ Replace (drop (j + length old) s) old new n)"

text \<open>
  \<^verbatim>\<open>bytes.SplitN(s, sep, n)\<close> for \<open>n > 0\<close> and a non-empty \<open>sep\<close>: at most \<open>n\<close>
  pieces, the last one the unsplit remainder. (The library first caps \<open>n\<close> at
  \<open>len(s) + 1\<close>, which is written out.)
\<close>

fun genSplit :: "bytes \<Rightarrow> bytes \<Rightarrow> nat \<Rightarrow> bytes list" where
  "genSplit s sep 0 = [s]"
| "genSplit s sep (Suc k) =
     (case Index s sep of
        None \<Rightarrow> [s]
      | Some m \<Rightarrow> take m s # genSplit (drop (m + length sep) s) sep k)"

definition SplitN :: "bytes \<Rightarrow> bytes \<Rightarrow> nat \<Rightarrow> bytes list" where
  "SplitN s sep n = (if n = 0 then [] else genSplit s sep (min n (length s + 1) - 1))"

text \<open>\<^verbatim>\<open>fmt.Sprint\<close> of a non-negative \<^verbatim>\<open>int\<close>: its decimal digits.\<close>

fun Sprint :: "nat \<Rightarrow> string" where
  "Sprint n =
     (if n < 10 then [''0123456789'' ! n]
      else Sprint (n div 10) @ [''0123456789'' ! (n mod 10)])"

declare Sprint.simps [simp del]

text \<open>
  The number of positions of \<open>s\<close> at which an instance of \<open>sub\<close> starts (instances may
  overlap). This is not a function of the program; the statements about "how often the
  script occurs" are written with it.
\<close>

definition occurrences :: "bytes \<Rightarrow> bytes \<Rightarrow> nat" where
  "occurrences s sub = length (filter (\<lambda>i. HasPrefix (drop i s) sub) [0..<Suc (length s)])"


section \<open>The response interceptor (internal/server/server.go)\<close>

subsection \<open>The HTTP interface\<close>

text \<open>
  \<^verbatim>\<open>http.Header\<close> is a map from header names to lists of values. Names are taken to be
  in canonical form already, so that \<^verbatim>\<open>Set\<close>, \<^verbatim>\<open>Add\<close> and \<^verbatim>\<open>Del\<close> act on the key
  they are given.
\<close>

type_synonym Header = "string \<rightharpoonup> string list"

definition Header_Set :: "string \<Rightarrow> string \<Rightarrow> Header \<Rightarrow> Header" where
  "Header_Set k v h = h(k \<mapsto> [v])"

definition Header_Add :: "string \<Rightarrow> string \<Rightarrow> Header \<Rightarrow> Header" where
  "Header_Add k v h = h(k \<mapsto> (case h k of None \<Rightarrow> [] | Some vs \<Rightarrow> vs) @ [v])"

definition Header_Del :: "string \<Rightarrow> Header \<Rightarrow> Header" where
  "Header_Del k h = h(k := None)"

record Request =
  URL_Path :: string

definition StatusOK :: nat where
  "StatusOK = 200"

text \<open>
  The server's own \<^verbatim>\<open>http.ResponseWriter\<close>, as far as its documented contract goes:
  the header map can be changed until the status line is written; the first
  \<^verbatim>\<open>WriteHeader\<close> fixes the status code and sends the header map as it is at that
  moment, later calls are ignored; a \<^verbatim>\<open>Write\<close> before any \<^verbatim>\<open>WriteHeader\<close> first
  does \<^verbatim>\<open>WriteHeader(http.StatusOK)\<close>; every \<^verbatim>\<open>Write\<close> appends to the body.
  What the transport does below that (chunking, content sniffing, suppressing the body
  of a bodiless status) is not part of the model.
\<close>

record ResponseWriter =
  rw_header :: Header
  rw_wroteHeader :: bool
  rw_status :: nat
  rw_sentHeader :: Header
  rw_body :: bytes

definition newResponseWriter :: ResponseWriter where
  "newResponseWriter =
     \<lparr>rw_header = Map.empty, rw_wroteHeader = False, rw_status = 0,
      rw_sentHeader = Map.empty, rw_body = []\<rparr>"

definition rw_WriteHeader :: "nat \<Rightarrow> ResponseWriter \<Rightarrow> ResponseWriter" where
  "rw_WriteHeader code w =
     (if rw_wroteHeader w then w
      else w\<lparr>rw_wroteHeader := True, rw_status := code, rw_sentHeader := rw_header w\<rparr>)"

definition rw_Write :: "bytes \<Rightarrow> ResponseWriter \<Rightarrow> ResponseWriter" where
  "rw_Write b w =
     (let w' = (if rw_wroteHeader w then w else rw_WriteHeader StatusOK w)
      in w'\<lparr>rw_body := rw_body w' @ b\<rparr>)"

text \<open>
  A handler is known to the wrapper only through the calls it makes on the
  \<^verbatim>\<open>ResponseWriter\<close> it is handed: for a request, \<open>next\<close> is the sequence of those
  calls, in order.
\<close>

datatype rw_call =
    CallHeaderSet string string
  | CallHeaderAdd string string
  | CallHeaderDel string
  | CallWriteHeader nat
  | CallWrite bytes

type_synonym Handler = "Request \<Rightarrow> rw_call list"

fun rw_perform :: "rw_call \<Rightarrow> ResponseWriter \<Rightarrow> ResponseWriter" where
  "rw_perform (CallHeaderSet k v) w = w\<lparr>rw_header := Header_Set k v (rw_header w)\<rparr>"
| "rw_perform (CallHeaderAdd k v) w = w\<lparr>rw_header := Header_Add k v (rw_header w)\<rparr>"
| "rw_perform (CallHeaderDel k) w = w\<lparr>rw_header := Header_Del k (rw_header w)\<rparr>"
| "rw_perform (CallWriteHeader code) w = rw_WriteHeader code w"
| "rw_perform (CallWrite b) w = rw_Write b w"

definition ServeHTTP :: "Handler \<Rightarrow> ResponseWriter \<Rightarrow> Request \<Rightarrow> ResponseWriter" where
  "ServeHTTP next w r = fold rw_perform (next r) w"

subsection \<open>interceptingWriter\<close>

record interceptingWriter =
  iw_ResponseWriter :: ResponseWriter
  iw_body :: bytes
  iw_statusCode :: nat
  iw_header :: Header

definition newInterceptingWriter :: "ResponseWriter \<Rightarrow> interceptingWriter" where
  "newInterceptingWriter w =
     \<lparr>iw_ResponseWriter = w, iw_body = [], iw_statusCode = StatusOK, iw_header = Map.empty\<rparr>"

definition iw_Write :: "bytes \<Rightarrow> interceptingWriter \<Rightarrow> interceptingWriter" where
  "iw_Write b iw = iw\<lparr>iw_body := iw_body iw @ b\<rparr>"

definition iw_WriteHeader :: "nat \<Rightarrow> interceptingWriter \<Rightarrow> interceptingWriter" where
  "iw_WriteHeader statusCode iw = iw\<lparr>iw_statusCode := statusCode\<rparr>"

fun iw_perform :: "rw_call \<Rightarrow> interceptingWriter \<Rightarrow> interceptingWriter" where
  "iw_perform (CallHeaderSet k v) iw = iw\<lparr>iw_header := Header_Set k v (iw_header iw)\<rparr>"
| "iw_perform (CallHeaderAdd k v) iw = iw\<lparr>iw_header := Header_Add k v (iw_header iw)\<rparr>"
| "iw_perform (CallHeaderDel k) iw = iw\<lparr>iw_header := Header_Del k (iw_header iw)\<rparr>"
| "iw_perform (CallWriteHeader code) iw = iw_WriteHeader code iw"
| "iw_perform (CallWrite b) iw = iw_Write b iw"

definition ServeHTTP_iw :: "Handler \<Rightarrow> interceptingWriter \<Rightarrow> Request \<Rightarrow> interceptingWriter" where
  "ServeHTTP_iw next iw r = fold iw_perform (next r) iw"

subsection \<open>liveReloadWrapper\<close>

definition liveReloadScript :: string where
  \<open>liveReloadScript =
    ''\<newline><script>\<newline>'' @
    ''  (function() {\<newline>'' @
    ''    let socket = new WebSocket("ws://" + window.location.host + "/ws");\<newline>'' @
    ''    socket.onmessage = function(event) {\<newline>'' @
    ''      if (event.data === "reload") {\<newline>'' @
    ''        console.log("Reloading page...");\<newline>'' @
    ''        window.location.reload();\<newline>'' @
    ''      }\<newline>'' @
    ''    };\<newline>'' @
    ''    socket.onclose = function() {\<newline>'' @
    ''      // Don'' @ [CHR 0x27] @ ''t log on normal close, it'' @ [CHR 0x27] @ ''s just noise.\<newline>'' @
    ''    };\<newline>'' @
    ''    socket.onerror = function(error) {\<newline>'' @
    ''      console.error("Live reload connection error. Please restart '' @ [CHR 0x27] @
      ''nibl serve'' @ [CHR 0x27] @ ''.");\<newline>'' @
    ''    };\<newline>'' @
    ''  })();\<newline>'' @
    ''</script>\<newline>''\<close>

text \<open>
  The loop \<^verbatim>\<open>for key, values := range iw.Header() { for _, value := range values {
  w.Header().Add(key, value) } }\<close>: the keys of a map are distinct, so the order of the
  outer range does not matter, and the loop appends, key by key, the recorded values to
  the values the real header already has. A key recorded with no value adds nothing.
\<close>

definition copyHeaders :: "Header \<Rightarrow> Header \<Rightarrow> Header" where
  "copyHeaders src dst =
     (\<lambda>key. case src key of
        None \<Rightarrow> dst key
      | Some values \<Rightarrow> fold (\<lambda>v h. Header_Add key v h) values dst key)"

definition isHTML :: "Request \<Rightarrow> bool" where
  "isHTML r = (HasSuffix (URL_Path r) ''.html'' \<or> HasSuffix (URL_Path r) ''/'')"

definition setCacheHeaders :: "ResponseWriter \<Rightarrow> ResponseWriter" where
  "setCacheHeaders w =
     w\<lparr>rw_header :=
         Header_Set ''Expires'' ''0''
           (Header_Set ''Pragma'' ''no-cache''
             (Header_Set ''Cache-Control'' ''no-cache, no-store, must-revalidate''
               (rw_header w)))\<rparr>"

definition liveReloadWrapper :: "Handler \<Rightarrow> ResponseWriter \<Rightarrow> Request \<Rightarrow> ResponseWriter" where
  "liveReloadWrapper next w0 r =
     (let w = setCacheHeaders w0 in
      if \<not> isHTML r then ServeHTTP next w r
      else
        let iw = ServeHTTP_iw next (newInterceptingWriter w) r;
            w = w\<lparr>rw_header := copyHeaders (iw_header iw) (rw_header w)\<rparr>;
            bodyBytes = iw_body iw
        in if iw_statusCode iw \<noteq> StatusOK
           then rw_Write bodyBytes (rw_WriteHeader (iw_statusCode iw) w)
           else
             let injectedBody = Replace bodyBytes ''</body>'' (liveReloadScript @ ''</body>'') 1;
                 w = w\<lparr>rw_header :=
                         Header_Set ''Content-Length'' (Sprint (length injectedBody)) (rw_header w)\<rparr>
             in rw_Write injectedBody (rw_WriteHeader (iw_statusCode iw) w))"

text \<open>
  What a handler hands to \<^verbatim>\<open>Write\<close> over a whole request, and the status code a
  recorder that starts at \<open>code\<close> ends with (the last \<^verbatim>\<open>WriteHeader\<close> wins there).
\<close>

fun written :: "rw_call list \<Rightarrow> bytes" where
  "written [] = []"
| "written (CallWrite b # cs) = b @ written cs"
| "written (c # cs) = written cs"

fun recorded_status :: "nat \<Rightarrow> rw_call list \<Rightarrow> nat" where
  "recorded_status code [] = code"
| "recorded_status code (CallWriteHeader c # cs) = recorded_status c cs"
| "recorded_status code (c # cs) = recorded_status code cs"

fun calls_WriteHeader :: "rw_call list \<Rightarrow> bool" where
  "calls_WriteHeader [] = False"
| "calls_WriteHeader (CallWriteHeader c # cs) = True"
| "calls_WriteHeader (c # cs) = calls_WriteHeader cs"

text \<open>
  What the client gets as status when a handler runs directly on the server's writer:
  the status of the header that was written or, when the handler returns without one,
  the 200 that the server then sends. A handler sets its status once when it calls
  \<^verbatim>\<open>WriteHeader\<close> at most one time and not after a \<^verbatim>\<open>Write\<close>, as the contract of
  \<^verbatim>\<open>http.ResponseWriter\<close> asks; only for such a handler are the status it responds with
  and the status the recorder ends with sure to be the same.
\<close>

definition sent_status :: "ResponseWriter \<Rightarrow> nat" where
  "sent_status w = (if rw_wroteHeader w then rw_status w else StatusOK)"

definition responded_status :: "rw_call list \<Rightarrow> nat" where
  "responded_status cs = sent_status (fold rw_perform cs newResponseWriter)"

fun sets_status_once :: "rw_call list \<Rightarrow> bool" where
  "sets_status_once [] = True"
| "sets_status_once (CallWriteHeader c # cs) = (\<not> calls_WriteHeader cs)"
| "sets_status_once (CallWrite b # cs) = (\<not> calls_WriteHeader cs)"
| "sets_status_once (c # cs) = sets_status_once cs"


section \<open>The reload hub (internal/server/hub.go)\<close>

text \<open>
  A \<^verbatim>\<open>*websocket.Conn\<close> is known by its identity. What the program can observe of a
  connection, and what its peer observes, is kept per connection: whether the transport
  is broken (the peer is gone, so a write fails), whether \<^verbatim>\<open>Close\<close> has been called,
  the text messages delivered to the peer, and how many times \<^verbatim>\<open>WriteMessage\<close> has
  been called on it.
\<close>

type_synonym Conn = nat

record ConnState =
  cs_broken :: bool
  cs_closed :: bool
  cs_inbox :: "bytes list"
  cs_writes :: nat

text \<open>The connections and the process log (\<^verbatim>\<open>log.Println\<close>, \<^verbatim>\<open>log.Printf\<close>).\<close>

record World =
  conns :: "Conn \<Rightarrow> ConnState"
  logged :: "string list"

definition log_Println :: "string \<Rightarrow> World \<Rightarrow> World" where
  "log_Println line wd = wd\<lparr>logged := logged wd @ [line]\<rparr>"

definition write_fails :: "ConnState \<Rightarrow> bool" where
  "write_fails s = (cs_broken s \<or> cs_closed s)"

text \<open>
  \<^verbatim>\<open>conn.WriteMessage(websocket.TextMessage, message)\<close>: on a broken or closed
  connection it returns an error and delivers nothing; otherwise the message reaches the
  peer. (The text of the error is the library's; a fixed text stands for it.)
\<close>

definition WriteMessage :: "Conn \<Rightarrow> bytes \<Rightarrow> World \<Rightarrow> string option \<times> World" where
  "WriteMessage c message wd =
     (let s = (conns wd c)\<lparr>cs_writes := Suc (cs_writes (conns wd c))\<rparr>
      in if write_fails s
         then (Some ''write on closed connection'', wd\<lparr>conns := (conns wd)(c := s)\<rparr>)
         else (None, wd\<lparr>conns := (conns wd)(c := s\<lparr>cs_inbox := cs_inbox s @ [message]\<rparr>)\<rparr>))"

definition Close :: "Conn \<Rightarrow> World \<Rightarrow> World" where
  "Close c wd = wd\<lparr>conns := (conns wd)(c := (conns wd c)\<lparr>cs_closed := True\<rparr>)\<rparr>"

text \<open>
  The Hub. Its \<^verbatim>\<open>clients map[*websocket.Conn]bool\<close> is an association list with
  distinct keys; the order of the list stands for the order in which the Go runtime
  happens to range over the map, so a statement about every list is a statement about
  every order. The mutex makes each method one atomic step on the Hub, which is how the
  methods are written here: functions from the state before to the state after.
\<close>

record Hub =
  clients :: "(Conn \<times> bool) list"

definition newHub :: Hub where
  "newHub = \<lparr>clients = []\<rparr>"

definition register :: "Conn \<Rightarrow> Hub \<times> World \<Rightarrow> Hub \<times> World" where
  "register conn = (\<lambda>(h, wd).
     (h\<lparr>clients := AList.update conn True (clients h)\<rparr>,
      log_Println ''Live-reload client connected.'' wd))"

definition unregister :: "Conn \<Rightarrow> Hub \<times> World \<Rightarrow> Hub \<times> World" where
  "unregister conn = (\<lambda>(h, wd).
     if map_of (clients h) conn \<noteq> None
     then (h\<lparr>clients := AList.delete conn (clients h)\<rparr>,
           log_Println ''Live-reload client disconnected.'' (Close conn wd))
     else (h, wd))"

text \<open>
  The body of the loop of \<^verbatim>\<open>broadcastMessage\<close> for one client, and the loop: it ranges
  over the clients that are in the map when the pass starts; the body removes nothing
  but the entry it is visiting.
\<close>

definition broadcastTo :: "bytes \<Rightarrow> Conn \<Rightarrow> Hub \<times> World \<Rightarrow> Hub \<times> World" where
  "broadcastTo message client = (\<lambda>(h, wd).
     case WriteMessage client message wd of
       (None, wd') \<Rightarrow> (h, wd')
     | (Some err, wd') \<Rightarrow>
         (h\<lparr>clients := AList.delete client (clients h)\<rparr>,
          Close client (log_Println (''Error writing to client: '' @ err) wd')))"

definition broadcastMessage :: "bytes \<Rightarrow> Hub \<times> World \<Rightarrow> Hub \<times> World" where
  "broadcastMessage message = (\<lambda>(h, wd).
     fold (broadcastTo message) (map fst (clients h)) (h, wd))"

definition members :: "Hub \<Rightarrow> Conn set" where
  "members h = fst ` set (clients h)"


section \<open>The watch and debounce scheduler (internal/server/server.go)\<close>

text \<open>
  \<^verbatim>\<open>fsnotify.Op\<close> is a set of flags, \<^verbatim>\<open>Event.Has\<close> tests one of them.
\<close>

datatype Op = Create | Write | Remove | Rename | Chmod

record Event =
  ev_Name :: string
  ev_Op :: "Op set"

definition Has :: "Event \<Rightarrow> Op \<Rightarrow> bool" where
  "Has event op = (op \<in> ev_Op event)"

text \<open>
  Time. An instant is a number of nanoseconds on the monotonic clock, a
  \<^verbatim>\<open>time.Duration\<close> a number of nanoseconds. \<open>lastBuildTime\<close> starts as the zero
  \<^verbatim>\<open>time.Time\<close>, which lies before every reading of the clock by more than a
  \<^verbatim>\<open>Duration\<close> can hold: \<^verbatim>\<open>time.Since\<close> of it is the largest \<^verbatim>\<open>Duration\<close>. The
  zero time is \<open>None\<close>.
\<close>

type_synonym Time = nat
type_synonym Duration = nat

definition Millisecond :: Duration where
  "Millisecond = 1000000"

definition maxDuration :: Duration where
  "maxDuration = 2 ^ 63 - 1"

definition debounceDuration :: Duration where
  "debounceDuration = 500 * Millisecond"

definition time_Since :: "Time \<Rightarrow> Time option \<Rightarrow> Duration" where
  "time_Since now t = (case t of None \<Rightarrow> maxDuration | Some t' \<Rightarrow> min (now - t') maxDuration)"

record BuildOptions =
  CleanDestination :: bool
  Unsafe :: bool
  Debug :: bool

text \<open>
  The scheduler is handed the build as a function. A build reads the project as it is
  when it runs and takes its time: called at an instant it returns how long it ran and
  its error, if any.
\<close>

type_synonym BuildFunc = "BuildOptions \<Rightarrow> Time \<Rightarrow> Duration \<times> string option"

text \<open>
  What the loop does that the claims speak about, in order: the settle sleep, the call
  of the build function (with the instant of the call and its error), the broadcast.
\<close>

datatype Action = Slept Duration | Built Time "string option" | Broadcast bytes

record Sched =
  now :: Time
  lastBuildTime :: "Time option"
  hub :: Hub
  world :: World
  trace :: "Action list"

definition time_Sleep :: "Duration \<Rightarrow> Sched \<Rightarrow> Sched" where
  "time_Sleep d s = s\<lparr>now := now s + d, trace := trace s @ [Slept d]\<rparr>"

definition sched_log :: "string \<Rightarrow> Sched \<Rightarrow> Sched" where
  "sched_log line s = s\<lparr>world := log_Println line (world s)\<rparr>"

definition qualifies :: "Event \<Rightarrow> bool" where
  "qualifies event = (Has event Write \<or> Has event Create \<or> Has event Remove \<or> Has event Rename)"

text \<open>
  The body of \<^verbatim>\<open>case event, ok := <-watcher.Events\<close> for a received event. Only the
  sleep and the build take time.
\<close>

definition handleEvent :: "BuildFunc \<Rightarrow> BuildOptions \<Rightarrow> Event \<Rightarrow> Sched \<Rightarrow> Sched" where
  "handleEvent buildFunc opts event s0 =
     (if qualifies event then
        if time_Since (now s0) (lastBuildTime s0) > debounceDuration then
          let s = time_Sleep (100 * Millisecond) s0;
              s = sched_log (''Change detected in '' @ ev_Name event @ '', rebuilding...'') s;
              (d, err) = buildFunc opts (now s);
              s = s\<lparr>now := now s + d, trace := trace s @ [Built (now s) err]\<rparr>;
              s = (case err of
                     Some e \<Rightarrow> sched_log (''Error rebuilding site: '' @ e) s
                   | None \<Rightarrow>
                       let s = sched_log ''Site rebuilt successfully. Triggering reload...'' s;
                           (h, wd) = broadcastMessage ''reload'' (hub s, world s)
                       in s\<lparr>hub := h, world := wd, trace := trace s @ [Broadcast ''reload'']\<rparr>)
          in s\<lparr>lastBuildTime := Some (now s)\<rparr>
        else s0
      else s0)"

text \<open>
  The loop. What the two channels of the watcher deliver is a list of messages, in the
  order in which \<^verbatim>\<open>select\<close> takes them, each with the instant from which it is
  there to be taken; the loop takes it then, or when it is next free. With nothing left
  to take the loop is blocked in \<^verbatim>\<open>select\<close> (\<open>Waiting\<close>); it returns when a channel
  is closed.
\<close>

datatype Input = RecvEvent Event | EventsClosed | RecvError string | ErrorsClosed

datatype Outcome = Returned Sched | Waiting Sched

fun state_of :: "Outcome \<Rightarrow> Sched" where
  "state_of (Returned s) = s"
| "state_of (Waiting s) = s"

fun watchLoop :: "BuildFunc \<Rightarrow> BuildOptions \<Rightarrow> Sched \<Rightarrow> (Time \<times> Input) list \<Rightarrow> Outcome" where
  "watchLoop buildFunc opts s [] = Waiting s"
| "watchLoop buildFunc opts s ((t, EventsClosed) # rest) = Returned (s\<lparr>now := max (now s) t\<rparr>)"
| "watchLoop buildFunc opts s ((t, ErrorsClosed) # rest) = Returned (s\<lparr>now := max (now s) t\<rparr>)"
| "watchLoop buildFunc opts s ((t, RecvEvent event) # rest) =
     watchLoop buildFunc opts (handleEvent buildFunc opts event (s\<lparr>now := max (now s) t\<rparr>)) rest"
| "watchLoop buildFunc opts s ((t, RecvError err) # rest) =
     watchLoop buildFunc opts (sched_log (''Watcher error: '' @ err) (s\<lparr>now := max (now s) t\<rparr>)) rest"

definition watchForChanges ::
  "(Time \<times> Input) list \<Rightarrow> Hub \<times> World \<Rightarrow> BuildFunc \<Rightarrow> BuildOptions \<Rightarrow> Time \<Rightarrow> Outcome" where
  "watchForChanges watcher hw buildFunc opts start =
     watchLoop buildFunc opts
       \<lparr>now = start, lastBuildTime = None, hub = fst hw, world = snd hw, trace = []\<rparr> watcher"

text \<open>The number of calls of the build function so far, and of broadcasts.\<close>

fun builds :: "Action list \<Rightarrow> nat" where
  "builds [] = 0"
| "builds (Built t err # as) = Suc (builds as)"
| "builds (a # as) = builds as"

fun broadcasts :: "Action list \<Rightarrow> nat" where
  "broadcasts [] = 0"
| "broadcasts (Broadcast m # as) = Suc (broadcasts as)"
| "broadcasts (a # as) = broadcasts as"

definition rebuilds_triggered ::
  "BuildFunc \<Rightarrow> BuildOptions \<Rightarrow> Sched \<Rightarrow> (Time \<times> Input) list \<Rightarrow> nat" where
  "rebuilds_triggered buildFunc opts s inputs =
     builds (trace (state_of (watchLoop buildFunc opts s inputs))) - builds (trace s)"


text \<open>
  An event passes the gate of the loop, in the state in which it is received, when it
  qualifies and more than the debounce interval lies between the last completed build
  and now.
\<close>

definition accepted :: "Event \<Rightarrow> Sched \<Rightarrow> bool" where
  "accepted event s = (qualifies event \<and> time_Since (now s) (lastBuildTime s) > debounceDuration)"

subsection \<open>A scheduler at rest, builds and an event, for the evaluated instances\<close>

definition freshConn :: ConnState where
  "freshConn = \<lparr>cs_broken = False, cs_closed = False, cs_inbox = [], cs_writes = 0\<rparr>"

definition idle :: Sched where
  "idle = \<lparr>now = 0, lastBuildTime = None, hub = newHub,
           world = \<lparr>conns = (\<lambda>c. freshConn), logged = []\<rparr>, trace = []\<rparr>"

definition write_event :: Event where
  "write_event = \<lparr>ev_Name = ''content/post.md'', ev_Op = {Write}\<rparr>"

definition instant_build :: BuildFunc where
  "instant_build opts t = (0, None)"

definition failing_build :: BuildFunc where
  "failing_build opts t = (0, Some ''content file is not valid UTF-8: content/post.md'')"

definition no_options :: BuildOptions where
  "no_options = \<lparr>CleanDestination = False, Unsafe = False, Debug = False\<rparr>"


section \<open>The build pipeline (internal/builder, internal/util, internal/config)\<close>

subsection \<open>Data\<close>

record SiteConfig =
  site_Title :: string
  site_Author :: string
  site_BaseURL :: string
  site_Description :: string
  site_Template :: string

text \<open>A value of the parameter bag (\<^verbatim>\<open>map[string]interface{}\<close> filled by the YAML parser).\<close>

datatype Value = Scalar string | Sequence "Value list" | Mapping "(string \<times> Value) list"

record PageMeta =
  meta_Title :: string
  meta_Author :: string
  meta_Draft :: bool
  meta_Description :: string
  meta_ShowEditML :: bool
  meta_StoryTitle :: string
  meta_StoryAuthor :: string
  meta_Params :: "(string \<times> Value) list"

text \<open>\<^verbatim>\<open>PageMeta{}\<close>, the zero value.\<close>

definition emptyPageMeta :: PageMeta where
  "emptyPageMeta =
     \<lparr>meta_Title = [], meta_Author = [], meta_Draft = False, meta_Description = [],
      meta_ShowEditML = False, meta_StoryTitle = [], meta_StoryAuthor = [], meta_Params = []\<rparr>"

record PageData =
  pd_Content :: string
  pd_Title :: string
  pd_BaseHref :: string
  pd_Author :: string
  pd_Description :: string
  pd_Site :: SiteConfig
  pd_ShowEditML :: bool
  pd_StoryTitle :: string
  pd_Params :: "(string \<times> Value) list"

subsection \<open>The libraries and the operating system, as the pipeline calls them\<close>

text \<open>
  The YAML parser, the Markdown renderer, the sanitizer and the UTF-8 check are
  functions of the bytes they are given; \<open>Inl\<close> is the error. \<^verbatim>\<open>yaml.Unmarshal\<close> fills
  a \<^verbatim>\<open>PageMeta\<close> that starts as the zero value.
\<close>

record Libs =
  yaml_Unmarshal :: "bytes \<Rightarrow> string + PageMeta"
  markdown_Convert :: "bytes \<Rightarrow> string + bytes"
  SanitizeBytes :: "bytes \<Rightarrow> bytes"
  utf8_Valid :: "bytes \<Rightarrow> bool"

text \<open>
  Executing the template \<open>main\<close> on the data of a page gives the bytes it produced and
  its error, if any.
\<close>

type_synonym Template = "PageData \<Rightarrow> bytes \<times> string option"

type_synonym path = string

text \<open>
  One call of the function handed to \<^verbatim>\<open>filepath.Walk\<close>: the path, the name and kind
  from the \<^verbatim>\<open>os.FileInfo\<close>, and the error of the walk for this entry.
\<close>

record WalkEntry =
  we_path :: path
  we_Name :: string
  we_IsDir :: bool
  we_err :: "string option"

text \<open>
  The file system is a state \<open>'fs\<close> that the pipeline reaches only through the calls of
  \<^verbatim>\<open>os\<close>, \<^verbatim>\<open>io\<close> and \<^verbatim>\<open>path/filepath\<close> below. A call that can fail returns its
  error (\<open>Some\<close>, \<open>Inl\<close>); a call that changes the file system returns the new state.
  \<open>file_Write\<close> stands for the writes to a file that \<^verbatim>\<open>os.Create\<close> has opened
  (by the template, by \<^verbatim>\<open>io.Copy\<close>); \<open>filepath_Walk\<close> is the sequence of entries a
  walk of a tree visits, in its order.
\<close>

record 'fs OS =
  os_MkdirAll :: "path \<Rightarrow> 'fs \<Rightarrow> string option \<times> 'fs"
  os_ReadDir :: "path \<Rightarrow> 'fs \<Rightarrow> string + string list"
  os_RemoveAll :: "path \<Rightarrow> 'fs \<Rightarrow> string option \<times> 'fs"
  os_ReadFile :: "path \<Rightarrow> 'fs \<Rightarrow> string + bytes"
  os_Open :: "path \<Rightarrow> 'fs \<Rightarrow> string + bytes"
  os_Create :: "path \<Rightarrow> 'fs \<Rightarrow> string option \<times> 'fs"
  file_Write :: "path \<Rightarrow> bytes \<Rightarrow> 'fs \<Rightarrow> string option \<times> 'fs"
  filepath_Walk :: "path \<Rightarrow> 'fs \<Rightarrow> WalkEntry list"
  filepath_Rel :: "path \<Rightarrow> path \<Rightarrow> string + path"
  filepath_Join :: "path \<Rightarrow> path \<Rightarrow> path"
  filepath_Dir :: "path \<Rightarrow> path"

definition PathSeparator :: char where
  "PathSeparator = CHR ''/''"

text \<open>
  \<^verbatim>\<open>filepath.Ext\<close>: scanning from the end, up to the last path separator, the suffix
  that starts at the first dot met; empty when there is none.
\<close>

fun Ext_scan :: "string \<Rightarrow> string \<Rightarrow> string" where
  "Ext_scan [] suffix = []"
| "Ext_scan (c # before) suffix =
     (if c = PathSeparator then []
      else if c = CHR ''.'' then c # suffix
      else Ext_scan before (c # suffix))"

definition filepath_Ext :: "path \<Rightarrow> string" where
  "filepath_Ext p = Ext_scan (rev p) []"

text \<open>
  The loop of \<^verbatim>\<open>filepath.Walk\<close>: the function is called on the entries in order, and
  the first error it returns ends the walk and is the error of the walk. (The function
  of this program never returns \<^verbatim>\<open>filepath.SkipDir\<close>.)
\<close>

fun Walk :: "(WalkEntry \<Rightarrow> 's \<Rightarrow> string option \<times> 's) \<Rightarrow> WalkEntry list \<Rightarrow> 's \<Rightarrow> string option \<times> 's" where
  "Walk fn [] st = (None, st)"
| "Walk fn (e # es) st =
     (case fn e st of
        (Some err, st') \<Rightarrow> (Some err, st')
      | (None, st') \<Rightarrow> Walk fn es st')"

subsection \<open>internal/util: ComputeBaseHref\<close>

definition ComputeBaseHref :: "'fs OS \<Rightarrow> path \<Rightarrow> string" where
  "ComputeBaseHref os relPath =
     (let dir = filepath_Dir os relPath in
      if dir = ''.'' then []
      else let depth = count_list dir PathSeparator + 1 in concat (replicate depth ''../''))"

subsection \<open>internal/builder/render.go: processContent\<close>

definition processContent :: "Libs \<Rightarrow> bytes \<Rightarrow> BuildOptions \<Rightarrow> PageMeta \<times> string \<times> string option" where
  "processContent libs rawContent opts =
     (let parts = SplitN rawContent ''---'' 3 in
      case (if length parts \<ge> 3
            then (case yaml_Unmarshal libs (parts ! 1) of
                    Inl err \<Rightarrow> Inl err
                  | Inr meta \<Rightarrow> Inr (meta, parts ! 2))
            else Inr (emptyPageMeta, rawContent)) of
        Inl err \<Rightarrow> (emptyPageMeta, [], Some (''failed to parse front matter: '' @ err))
      | Inr (meta, body) \<Rightarrow>
          (case markdown_Convert libs body of
             Inl err \<Rightarrow> (meta, [], Some (''failed to render markdown with goldmark: '' @ err))
           | Inr htmlBuffer \<Rightarrow>
               if \<not> Unsafe opts then (meta, SanitizeBytes libs htmlBuffer, None)
               else (meta, htmlBuffer, None)))"

subsection \<open>internal/builder/builder.go\<close>

definition isExceptionPage :: "string \<Rightarrow> bool" where
  "isExceptionPage slug = (slug = ''index'' \<or> slug = ''about'' \<or> slug = ''menu'')"

definition renderPage :: "'fs OS \<Rightarrow> Template \<Rightarrow> path \<Rightarrow> PageData \<Rightarrow> 'fs \<Rightarrow> string option \<times> 'fs" where
  "renderPage os tmpl outPath data fs =
     (case os_Create os outPath fs of
        (Some err, fs) \<Rightarrow> (Some err, fs)
      | (None, fs) \<Rightarrow>
          (case tmpl data of (out, execErr) \<Rightarrow>
           case file_Write os outPath out fs of
             (Some err, fs) \<Rightarrow> (Some err, fs)
           | (None, fs) \<Rightarrow> (execErr, fs)))"

text \<open>
  The function that \<^verbatim>\<open>BuildSite\<close> hands to the walk of the content tree, in two
  pieces: \<open>writePage\<close> is its part after the draft check (from the computation of
  \<open>outputPath\<close> to \<open>pagesGenerated++\<close>), \<open>contentVisit\<close> the whole. The state carried
  through the walk is the file system and \<open>pagesGenerated\<close>.
\<close>

definition writePage ::
  "'fs OS \<Rightarrow> path \<Rightarrow> SiteConfig \<Rightarrow> Template \<Rightarrow> path \<Rightarrow> string \<Rightarrow> PageMeta \<Rightarrow> string \<Rightarrow> path \<Rightarrow>
   'fs \<times> nat \<Rightarrow> string option \<times> 'fs \<times> nat" where
  "writePage os outputDir site tmpl path ext meta htmlOut relPath = (\<lambda>(fs, pagesGenerated).
     let outputPath = filepath_Join os outputDir (TrimSuffix relPath ext @ ''.html'') in
     case os_MkdirAll os (filepath_Dir os outputPath) fs of
       (Some err, fs) \<Rightarrow> (Some err, fs, pagesGenerated)
     | (None, fs) \<Rightarrow>
         let pageData =
               \<lparr>pd_Content = htmlOut,
                pd_Title = meta_Title meta,
                pd_BaseHref = ComputeBaseHref os relPath,
                pd_Author = [],
                pd_Description = meta_Description meta,
                pd_Site = site,
                pd_ShowEditML = meta_ShowEditML meta,
                pd_StoryTitle = meta_StoryTitle meta,
                pd_Params = meta_Params meta\<rparr>;
             pageData =
               (if meta_StoryAuthor meta \<noteq> [] then pageData\<lparr>pd_Author := meta_StoryAuthor meta\<rparr>
                else pageData\<lparr>pd_Author := site_Author site\<rparr>);
             pageData =
               (if pd_Description pageData = [] then pageData\<lparr>pd_Description := site_Description site\<rparr>
                else pageData)
         in case renderPage os tmpl outputPath pageData fs of
              (Some err, fs) \<Rightarrow>
                (Some (''failed to render page '' @ path @ '': '' @ err), fs, pagesGenerated)
            | (None, fs) \<Rightarrow> (None, fs, pagesGenerated + 1))"

definition contentVisit ::
  "'fs OS \<Rightarrow> Libs \<Rightarrow> path \<Rightarrow> path \<Rightarrow> SiteConfig \<Rightarrow> Template \<Rightarrow> BuildOptions \<Rightarrow> WalkEntry \<Rightarrow>
   'fs \<times> nat \<Rightarrow> string option \<times> 'fs \<times> nat" where
  "contentVisit os libs outputDir contentDir site tmpl opts e = (\<lambda>(fs, pagesGenerated).
     case we_err e of
       Some err \<Rightarrow> (Some err, fs, pagesGenerated)
     | None \<Rightarrow>
         if we_IsDir e then (None, fs, pagesGenerated)
         else
           let ext = filepath_Ext (we_Name e) in
           if ext \<noteq> ''.html'' \<and> ext \<noteq> ''.md'' then (None, fs, pagesGenerated)
           else
             case os_ReadFile os (we_path e) fs of
               Inl err \<Rightarrow>
                 (Some (''failed to read file '' @ we_path e @ '': '' @ err), fs, pagesGenerated)
             | Inr contentBytes \<Rightarrow>
                 if \<not> utf8_Valid libs contentBytes
                 then (Some (''content file is not valid UTF-8: '' @ we_path e), fs, pagesGenerated)
                 else
                   case processContent libs contentBytes opts of
                     (meta, htmlOut, Some parseErr) \<Rightarrow>
                       (Some (''failed to process content for '' @ we_path e @ '': '' @ parseErr),
                        fs, pagesGenerated)
                   | (meta, htmlOut, None) \<Rightarrow>
                       (case filepath_Rel os contentDir (we_path e) of
                          Inl err \<Rightarrow> (Some err, fs, pagesGenerated)
                        | Inr relPath \<Rightarrow>
                            if meta_Draft meta \<and> \<not> isExceptionPage (TrimSuffix relPath ext)
                            then (None, fs, pagesGenerated)
                            else writePage os outputDir site tmpl (we_path e) ext meta htmlOut relPath
                                   (fs, pagesGenerated)))"

definition allowedExts :: "string list" where
  "allowedExts = [''.css'', ''.js'', ''.txt'', ''.svg'', ''.png'', ''.jpg'', ''.jpeg'', ''.gif'']"

definition staticVisit :: "'fs OS \<Rightarrow> path \<Rightarrow> path \<Rightarrow> WalkEntry \<Rightarrow> 'fs \<Rightarrow> string option \<times> 'fs" where
  "staticVisit os staticDir outputDir e fs =
     (case we_err e of
        Some err \<Rightarrow> (Some err, fs)
      | None \<Rightarrow>
          if we_IsDir e then (None, fs)
          else if filepath_Ext (we_Name e) \<notin> set allowedExts then (None, fs)
          else
            case filepath_Rel os staticDir (we_path e) of
              Inl err \<Rightarrow> (Some err, fs)
            | Inr rel \<Rightarrow>
                let dest = filepath_Join os outputDir rel in
                case os_MkdirAll os (filepath_Dir os dest) fs of
                  (Some err, fs) \<Rightarrow> (Some err, fs)
                | (None, fs) \<Rightarrow>
                    (case os_Open os (we_path e) fs of
                       Inl err \<Rightarrow> (Some err, fs)
                     | Inr src \<Rightarrow>
                         (case os_Create os dest fs of
                            (Some err, fs) \<Rightarrow> (Some err, fs)
                          | (None, fs) \<Rightarrow> file_Write os dest src fs)))"

definition copyStaticAssets :: "'fs OS \<Rightarrow> path \<Rightarrow> path \<Rightarrow> 'fs \<Rightarrow> string option \<times> 'fs" where
  "copyStaticAssets os staticDir outputDir fs =
     Walk (staticVisit os staticDir outputDir) (filepath_Walk os staticDir fs) fs"

text \<open>The loop over the entries of the output directory when \<open>CleanDestination\<close> is set.\<close>

fun removeEntries :: "'fs OS \<Rightarrow> path \<Rightarrow> string list \<Rightarrow> 'fs \<Rightarrow> string option \<times> 'fs" where
  "removeEntries os outputDir [] fs = (None, fs)"
| "removeEntries os outputDir (name # names) fs =
     (case os_RemoveAll os (filepath_Join os outputDir name) fs of
        (Some err, fs) \<Rightarrow> (Some err, fs)
      | (None, fs) \<Rightarrow> removeEntries os outputDir names fs)"

text \<open>
  \<^verbatim>\<open>BuildSite\<close> returns the page count and the error; the file system it leaves behind
  is returned with them.
\<close>

definition BuildSite ::
  "'fs OS \<Rightarrow> Libs \<Rightarrow> path \<Rightarrow> path \<Rightarrow> path \<Rightarrow> SiteConfig \<Rightarrow> Template \<Rightarrow> BuildOptions \<Rightarrow> 'fs \<Rightarrow>
   (nat \<times> string option) \<times> 'fs" where
  "BuildSite os libs outputDir contentDir staticDir site tmpl opts fs =
     (case os_MkdirAll os outputDir fs of
        (Some err, fs) \<Rightarrow> ((0, Some err), fs)
      | (None, fs) \<Rightarrow>
          (case (if CleanDestination opts
                 then (case os_ReadDir os outputDir fs of
                         Inl err \<Rightarrow> (Some err, fs)
                       | Inr entries \<Rightarrow> removeEntries os outputDir entries fs)
                 else (None, fs)) of
             (Some err, fs) \<Rightarrow> ((0, Some err), fs)
           | (None, fs) \<Rightarrow>
               (case Walk (contentVisit os libs outputDir contentDir site tmpl opts)
                       (filepath_Walk os contentDir fs) (fs, 0) of
                  (Some err, fs, pagesGenerated) \<Rightarrow> ((0, Some err), fs)
                | (None, fs, pagesGenerated) \<Rightarrow>
                    (case copyStaticAssets os staticDir outputDir fs of
                       (Some err, fs) \<Rightarrow> ((0, Some err), fs)
                     | (None, fs) \<Rightarrow> ((pagesGenerated, None), fs)))))"

subsection \<open>A small file system, libraries and a template, for the evaluated instances\<close>

text \<open>
  The project is a content tree (the entries a walk of \<open>content\<close> visits) and the
  contents of its files, which the build only reads; the state is the output: a list of
  paths with what has been written to them. Every call succeeds but the read of a file
  that is not there; paths are joined with the separator. The YAML stand-in knows one
  key, \<open>draft\<close>; rendering and sanitizing leave the text as it is; the template writes
  the content of the page.
\<close>

definition simple_os :: "WalkEntry list \<Rightarrow> (path \<times> bytes) list \<Rightarrow> ((path \<times> bytes) list) OS" where
  "simple_os tree sources =
     \<lparr>os_MkdirAll = (\<lambda>p fs. (None, fs)),
      os_ReadDir = (\<lambda>p fs. Inr []),
      os_RemoveAll = (\<lambda>p fs. (None, fs)),
      os_ReadFile = (\<lambda>p fs.
        case map_of sources p of None \<Rightarrow> Inl ''no such file'' | Some b \<Rightarrow> Inr b),
      os_Open = (\<lambda>p fs.
        case map_of sources p of None \<Rightarrow> Inl ''no such file'' | Some b \<Rightarrow> Inr b),
      os_Create = (\<lambda>p fs. (None, AList.update p [] fs)),
      file_Write = (\<lambda>p b fs.
        (None, AList.update p ((case map_of fs p of None \<Rightarrow> [] | Some old \<Rightarrow> old) @ b) fs)),
      filepath_Walk = (\<lambda>root fs. if root = ''content'' then tree else []),
      filepath_Rel = (\<lambda>base p.
        if HasPrefix p (base @ ''/'') then Inr (drop (length base + 1) p)
        else Inl ''Rel: cannot make the path relative''),
      filepath_Join = (\<lambda>a b. a @ ''/'' @ b),
      filepath_Dir = (\<lambda>p.
        case dropWhile (\<lambda>c. c \<noteq> PathSeparator) (rev p) of [] \<Rightarrow> ''.'' | c # r \<Rightarrow> rev r)\<rparr>"

definition simple_libs :: Libs where
  "simple_libs =
     \<lparr>yaml_Unmarshal = (\<lambda>b. Inr (emptyPageMeta\<lparr>meta_Draft := (Index b ''draft: true'' \<noteq> None)\<rparr>)),
      markdown_Convert = (\<lambda>b. Inr b),
      SanitizeBytes = (\<lambda>b. b),
      utf8_Valid = (\<lambda>b. True)\<rparr>"

definition content_template :: Template where
  "content_template data = (pd_Content data, None)"

definition no_site :: SiteConfig where
  "no_site = \<lparr>site_Title = [], site_Author = [], site_BaseURL = [], site_Description = [],
              site_Template = []\<rparr>"

definition file_entry :: "path \<Rightarrow> string \<Rightarrow> WalkEntry" where
  "file_entry p name = \<lparr>we_path = p, we_Name = name, we_IsDir = False, we_err = None\<rparr>"


section \<open>Properties of the byte-string functions\<close>

lemma Index_Some:
  "Index s sep = Some j \<Longrightarrow>
     j \<le> length s \<and> HasPrefix (drop j s) sep \<and> (\<forall>i<j. \<not> HasPrefix (drop i s) sep)"
proof (induction s arbitrary: j)
  case Nil
  then show ?case by (auto simp: HasPrefix_def split: if_splits)
next
  case (Cons c s)
  show ?case
  proof (cases "HasPrefix (c # s) sep")
    case True
    with Cons.prems show ?thesis by simp
  next
    case False
    with Cons.prems obtain k where k: "Index s sep = Some k" "j = Suc k" by auto
    from Cons.IH [OF k(1)] False k(2) show ?thesis
      by (auto simp: less_Suc_eq_0_disj)
  qed
qed

lemma Index_None:
  "Index s sep = None \<Longrightarrow> i \<le> length s \<Longrightarrow> \<not> HasPrefix (drop i s) sep"
proof (induction s arbitrary: i)
  case Nil
  then show ?case by (auto simp: HasPrefix_def split: if_splits)
next
  case (Cons c s)
  then show ?case by (cases i) (auto split: if_splits)
qed

lemma HasPrefix_drop_split:
  "HasPrefix (drop j s) sep \<Longrightarrow> drop j s = sep @ drop (j + length sep) s"
  unfolding HasPrefix_def
  by (metis add.commute append_take_drop_id drop_drop)

lemma Replace_once:
  "Replace s old (new @ old) (Suc 0) =
     (case Index s old of None \<Rightarrow> s | Some j \<Rightarrow> take j s @ new @ drop j s)"
  by (auto split: option.splits dest!: Index_Some dest: HasPrefix_drop_split)

section \<open>Properties of the response interceptor\<close>

lemma iw_body_fold: "iw_body (fold iw_perform cs iw) = iw_body iw @ written cs"
  by (induction cs arbitrary: iw rule: written.induct) (simp_all add: iw_Write_def iw_WriteHeader_def)

lemma iw_statusCode_fold:
  "iw_statusCode (fold iw_perform cs iw) = recorded_status (iw_statusCode iw) cs"
  by (induction "iw_statusCode iw" cs arbitrary: iw rule: recorded_status.induct)
     (simp_all add: iw_Write_def iw_WriteHeader_def)

lemma recorded_status_no_WriteHeader: "\<not> calls_WriteHeader cs \<Longrightarrow> recorded_status c cs = c"
  by (induction cs rule: calls_WriteHeader.induct) simp_all

lemma rw_body_fold: "rw_body (fold rw_perform cs w) = rw_body w @ written cs"
  by (induction cs arbitrary: w rule: written.induct)
     (simp_all add: rw_Write_def rw_WriteHeader_def Let_def)


lemma rw_fold_wrote:
  "rw_wroteHeader w \<Longrightarrow> sent_status (fold rw_perform cs w) = rw_status w"
proof (induction cs arbitrary: w)
  case Nil
  then show ?case by (simp add: sent_status_def)
next
  case (Cons c cs)
  have "rw_wroteHeader (rw_perform c w) \<and> rw_status (rw_perform c w) = rw_status w"
    using Cons.prems by (cases c) (simp_all add: rw_Write_def rw_WriteHeader_def Let_def)
  with Cons.IH [of "rw_perform c w"] show ?case by simp
qed

lemma responded_on_writer:
  "\<not> rw_wroteHeader w \<Longrightarrow> sets_status_once cs \<Longrightarrow>
     sent_status (fold rw_perform cs w) = recorded_status StatusOK cs"
proof (induction cs arbitrary: w rule: sets_status_once.induct)
  case 1
  then show ?case by (simp add: sent_status_def)
next
  case (2 c cs)
  let ?w = "rw_WriteHeader c w"
  have "rw_wroteHeader ?w" "rw_status ?w = c" using "2.prems" by (simp_all add: rw_WriteHeader_def)
  with rw_fold_wrote [of ?w cs] "2.prems" show ?case
    by (simp add: recorded_status_no_WriteHeader)
next
  case (3 b cs)
  let ?w = "rw_Write b w"
  have "rw_wroteHeader ?w" "rw_status ?w = StatusOK"
    using "3.prems" by (simp_all add: rw_Write_def rw_WriteHeader_def Let_def)
  with rw_fold_wrote [of ?w cs] "3.prems" show ?case
    by (simp add: recorded_status_no_WriteHeader)
qed simp_all

lemma recorded_is_responded:
  "sets_status_once cs \<Longrightarrow> recorded_status StatusOK cs = responded_status cs"
proof -
  assume a: "sets_status_once cs"
  have "\<not> rw_wroteHeader newResponseWriter" by (simp add: newResponseWriter_def)
  from responded_on_writer [OF this a] show ?thesis
    by (simp only: responded_status_def)
qed

lemma rw_fold_header_indep:
  "rw_wroteHeader w = rw_wroteHeader v \<Longrightarrow> rw_status w = rw_status v \<Longrightarrow> rw_body w = rw_body v \<Longrightarrow>
   rw_wroteHeader (fold rw_perform cs w) = rw_wroteHeader (fold rw_perform cs v) \<and>
   rw_status (fold rw_perform cs w) = rw_status (fold rw_perform cs v) \<and>
   rw_body (fold rw_perform cs w) = rw_body (fold rw_perform cs v)"
proof (induction cs arbitrary: w v)
  case Nil
  then show ?case by simp
next
  case (Cons c cs)
  have "rw_wroteHeader (rw_perform c w) = rw_wroteHeader (rw_perform c v) \<and>
        rw_status (rw_perform c w) = rw_status (rw_perform c v) \<and>
        rw_body (rw_perform c w) = rw_body (rw_perform c v)"
    using Cons.prems by (cases c) (simp_all add: rw_Write_def rw_WriteHeader_def Let_def)
  then show ?case using Cons.IH [of "rw_perform c w" "rw_perform c v"] by simp
qed

lemma length_liveReloadScript: "length liveReloadScript = 508"
  by (simp add: liveReloadScript_def)

text \<open>
  Claim C1, as the code has it. The wrapper goes by the status the recorder ends with:
  the code of the inner handler's last \<^verbatim>\<open>WriteHeader\<close>, 200 when it calls none. For a
  page-like request whose recorded status is 200, and so for every page-like request
  whose handler sets its status once and responds with 200, on the writer the server
  hands to the outermost handler: the status 200 is written; when
  the recorded body holds a closing body tag, the body sent is the recorded body with
  one copy of the reload script inserted at the position \<open>j\<close> of the first closing body
  tag (position \<open>j\<close> starts a closing body tag and no earlier position does), every
  other byte kept in place; when it holds none, the body sent is the recorded body,
  unchanged, with no script in it; and the Content-Length header sent is the decimal
  byte length of the body sent.
\<close>

theorem liveReload_injects:
  assumes "isHTML r"
    and "recorded_status StatusOK (next r) = StatusOK \<or>
         (sets_status_once (next r) \<and> responded_status (next r) = StatusOK)"
  shows "rw_status (liveReloadWrapper next newResponseWriter r) = 200 \<and>
         (case Index (written (next r)) ''</body>'' of
            None \<Rightarrow> rw_body (liveReloadWrapper next newResponseWriter r) = written (next r)
          | Some j \<Rightarrow>
              rw_body (liveReloadWrapper next newResponseWriter r) =
                take j (written (next r)) @ liveReloadScript @ drop j (written (next r)) \<and>
              HasPrefix (drop j (written (next r))) ''</body>'' \<and>
              (\<forall>i<j. \<not> HasPrefix (drop i (written (next r))) ''</body>'')) \<and>
         rw_sentHeader (liveReloadWrapper next newResponseWriter r) ''Content-Length'' =
           Some [Sprint (length (rw_body (liveReloadWrapper next newResponseWriter r)))]"
proof -
  let ?body = "written (next r)"
  let ?inj = "Replace ?body ''</body>'' (liveReloadScript @ ''</body>'') 1"
  have rec: "recorded_status StatusOK (next r) = StatusOK"
    using assms(2) recorded_is_responded [of "next r"] by auto
  have st: "iw_statusCode (ServeHTTP_iw next (newInterceptingWriter (setCacheHeaders newResponseWriter)) r) = StatusOK"
    using rec by (simp add: ServeHTTP_iw_def iw_statusCode_fold newInterceptingWriter_def)
  have bd: "iw_body (ServeHTTP_iw next (newInterceptingWriter (setCacheHeaders newResponseWriter)) r) = ?body"
    by (simp add: ServeHTTP_iw_def iw_body_fold newInterceptingWriter_def)
  have body: "rw_body (liveReloadWrapper next newResponseWriter r) = ?inj"
    using assms(1) st bd
    by (simp add: liveReloadWrapper_def Let_def rw_Write_def rw_WriteHeader_def
        setCacheHeaders_def newResponseWriter_def)
  have status: "rw_status (liveReloadWrapper next newResponseWriter r) = 200"
    using assms(1) st bd
    by (simp add: liveReloadWrapper_def Let_def rw_Write_def rw_WriteHeader_def
        setCacheHeaders_def newResponseWriter_def StatusOK_def)
  have len: "rw_sentHeader (liveReloadWrapper next newResponseWriter r) ''Content-Length'' =
           Some [Sprint (length ?inj)]"
    using assms(1) st bd
    by (simp add: liveReloadWrapper_def Let_def rw_Write_def rw_WriteHeader_def
        setCacheHeaders_def newResponseWriter_def Header_Set_def)
  have shape: "case Index ?body ''</body>'' of
            None \<Rightarrow> ?inj = ?body
          | Some j \<Rightarrow> ?inj = take j ?body @ liveReloadScript @ drop j ?body \<and>
              HasPrefix (drop j ?body) ''</body>'' \<and>
              (\<forall>i<j. \<not> HasPrefix (drop i ?body) ''</body>'')"
    using Index_Some [of ?body "''</body>''"]
    by (simp only: One_nat_def Replace_once split: option.split) simp
  show ?thesis using body status len shape by (simp split: option.splits)
qed

text \<open>
  An instance: a small page served at \<open>/index.html\<close>; Content-Length is
  \<open>28 + 508 = 536\<close>.
\<close>

theorem liveReload_injects_witness:
  "isHTML \<lparr>URL_Path = ''/index.html''\<rparr> \<and>
   recorded_status StatusOK
     [CallHeaderSet ''Content-Type'' ''text/html'', CallWrite ''<html><body>hi</body></html>''] = StatusOK \<and>
   sets_status_once
     [CallHeaderSet ''Content-Type'' ''text/html'', CallWrite ''<html><body>hi</body></html>''] \<and>
   responded_status
     [CallHeaderSet ''Content-Type'' ''text/html'', CallWrite ''<html><body>hi</body></html>''] = StatusOK \<and>
   rw_status (liveReloadWrapper
       (\<lambda>r. [CallHeaderSet ''Content-Type'' ''text/html'', CallWrite ''<html><body>hi</body></html>''])
       newResponseWriter \<lparr>URL_Path = ''/index.html''\<rparr>) = 200 \<and>
   rw_body (liveReloadWrapper
       (\<lambda>r. [CallHeaderSet ''Content-Type'' ''text/html'', CallWrite ''<html><body>hi</body></html>''])
       newResponseWriter \<lparr>URL_Path = ''/index.html''\<rparr>) =
     ''<html><body>hi'' @ liveReloadScript @ ''</body></html>'' \<and>
   rw_sentHeader (liveReloadWrapper
       (\<lambda>r. [CallHeaderSet ''Content-Type'' ''text/html'', CallWrite ''<html><body>hi</body></html>''])
       newResponseWriter \<lparr>URL_Path = ''/index.html''\<rparr>) ''Content-Length'' = Some [''536'']"
proof -
  let ?next = "\<lambda>r::Request. [CallHeaderSet ''Content-Type'' ''text/html'', CallWrite ''<html><body>hi</body></html>'']"
  let ?r = "\<lparr>URL_Path = ''/index.html''\<rparr>"
  have h1: "isHTML ?r" by (simp add: isHTML_def HasSuffix_def)
  have h2: "recorded_status StatusOK (?next ?r) = StatusOK" by simp
  have h3: "sets_status_once (?next ?r)" by simp
  have h4: "responded_status (?next ?r) = StatusOK"
    by (simp add: responded_status_def sent_status_def rw_Write_def rw_WriteHeader_def
        newResponseWriter_def)
  have h: "recorded_status StatusOK (?next ?r) = StatusOK \<or>
         (sets_status_once (?next ?r) \<and> responded_status (?next ?r) = StatusOK)"
    using h3 h4 by blast
  have idx: "Index (written (?next ?r)) ''</body>'' = Some 14"
    by (simp add: HasPrefix_def)
  have sp: "Sprint 536 = ''536''" by (simp add: Sprint.simps)
  from liveReload_injects [of ?r ?next, OF h1 h] idx sp
  have "rw_status (liveReloadWrapper ?next newResponseWriter ?r) = 200 \<and>
        rw_body (liveReloadWrapper ?next newResponseWriter ?r) =
          ''<html><body>hi'' @ liveReloadScript @ ''</body></html>'' \<and>
        rw_sentHeader (liveReloadWrapper ?next newResponseWriter ?r) ''Content-Length'' = Some [''536'']"
    by (simp add: length_liveReloadScript)
  with h1 h2 h3 h4 show ?thesis by simp
qed

text \<open>
  Claim C1 as stated fails, in two ways. A page-like request answered with status 200
  and a body without closing body tag (here \<open>hello\<close>) is forwarded with no script in it
  at all. And a handler that writes a page and calls \<^verbatim>\<open>WriteHeader(500)\<close> afterwards
  responds with status 200 when it runs on the server's writer, where the late call is
  ignored; behind the wrapper the recorder keeps the 500, and the page is forwarded
  with status 500 and no script.
\<close>

theorem script_exactly_once_counterexample:
  "isHTML \<lparr>URL_Path = ''/index.html''\<rparr> \<and>
   recorded_status StatusOK [CallWriteHeader 200, CallWrite ''hello''] = StatusOK \<and>
   responded_status [CallWriteHeader 200, CallWrite ''hello''] = 200 \<and>
   rw_status (liveReloadWrapper (\<lambda>r. [CallWriteHeader 200, CallWrite ''hello''])
       newResponseWriter \<lparr>URL_Path = ''/index.html''\<rparr>) = 200 \<and>
   occurrences (rw_body (liveReloadWrapper (\<lambda>r. [CallWriteHeader 200, CallWrite ''hello''])
       newResponseWriter \<lparr>URL_Path = ''/index.html''\<rparr>)) liveReloadScript \<noteq> 1 \<and>
   responded_status [CallWrite ''a</body>'', CallWriteHeader 500] = 200 \<and>
   rw_status (liveReloadWrapper (\<lambda>r. [CallWrite ''a</body>'', CallWriteHeader 500])
       newResponseWriter \<lparr>URL_Path = ''/index.html''\<rparr>) = 500 \<and>
   occurrences (rw_body (liveReloadWrapper (\<lambda>r. [CallWrite ''a</body>'', CallWriteHeader 500])
       newResponseWriter \<lparr>URL_Path = ''/index.html''\<rparr>)) liveReloadScript \<noteq> 1"
proof -
  have b: "rw_body (liveReloadWrapper (\<lambda>r. [CallWriteHeader 200, CallWrite ''hello''])
       newResponseWriter \<lparr>URL_Path = ''/index.html''\<rparr>) = ''hello''"
    by (simp add: liveReloadWrapper_def Let_def isHTML_def HasSuffix_def ServeHTTP_iw_def
        newInterceptingWriter_def iw_Write_def iw_WriteHeader_def StatusOK_def HasPrefix_def
        rw_Write_def rw_WriteHeader_def setCacheHeaders_def newResponseWriter_def)
  have s: "rw_status (liveReloadWrapper (\<lambda>r. [CallWriteHeader 200, CallWrite ''hello''])
       newResponseWriter \<lparr>URL_Path = ''/index.html''\<rparr>) = 200"
    by (simp add: liveReloadWrapper_def Let_def isHTML_def HasSuffix_def ServeHTTP_iw_def
        newInterceptingWriter_def iw_Write_def iw_WriteHeader_def StatusOK_def HasPrefix_def
        rw_Write_def rw_WriteHeader_def setCacheHeaders_def newResponseWriter_def)
  have o: "occurrences ''hello'' liveReloadScript = 0"
    by (simp add: occurrences_def HasPrefix_def length_liveReloadScript upt_rec)
  have r: "responded_status [CallWriteHeader 200, CallWrite ''hello''] = 200"
    "responded_status [CallWrite ''a</body>'', CallWriteHeader 500] = 200"
    by (simp_all add: responded_status_def sent_status_def rw_Write_def rw_WriteHeader_def
        newResponseWriter_def StatusOK_def)
  have b2: "rw_body (liveReloadWrapper (\<lambda>r. [CallWrite ''a</body>'', CallWriteHeader 500])
       newResponseWriter \<lparr>URL_Path = ''/index.html''\<rparr>) = ''a</body>''"
    by (simp add: liveReloadWrapper_def Let_def isHTML_def HasSuffix_def ServeHTTP_iw_def
        newInterceptingWriter_def iw_Write_def iw_WriteHeader_def StatusOK_def
        rw_Write_def rw_WriteHeader_def setCacheHeaders_def newResponseWriter_def)
  have s2: "rw_status (liveReloadWrapper (\<lambda>r. [CallWrite ''a</body>'', CallWriteHeader 500])
       newResponseWriter \<lparr>URL_Path = ''/index.html''\<rparr>) = 500"
    by (simp add: liveReloadWrapper_def Let_def isHTML_def HasSuffix_def ServeHTTP_iw_def
        newInterceptingWriter_def iw_Write_def iw_WriteHeader_def StatusOK_def
        rw_Write_def rw_WriteHeader_def setCacheHeaders_def newResponseWriter_def)
  have o2: "occurrences ''a</body>'' liveReloadScript = 0"
    by (simp add: occurrences_def HasPrefix_def length_liveReloadScript upt_rec)
  show ?thesis using b s o r b2 s2 o2 by (simp add: isHTML_def HasSuffix_def StatusOK_def)
qed

text \<open>
  Claim C7, as the code has it. The wrapper goes by the status the recorder ends with
  (the code of the inner handler's last \<^verbatim>\<open>WriteHeader\<close>, 200 when it calls none). A
  page-like request whose recorded status is not 200, and so every page-like request
  whose handler sets its status once and responds with a status other than 200, is
  answered with that status and with exactly the bytes the inner handler wrote; a
  request that is not page-like is answered with exactly the bytes the inner handler
  wrote.
\<close>

theorem passthrough_body:
  "(isHTML r \<and>
    (recorded_status StatusOK (next r) \<noteq> StatusOK \<or>
     (sets_status_once (next r) \<and> responded_status (next r) \<noteq> StatusOK)) \<longrightarrow>
      rw_status (liveReloadWrapper next newResponseWriter r) = recorded_status StatusOK (next r) \<and>
      (sets_status_once (next r) \<longrightarrow>
         rw_status (liveReloadWrapper next newResponseWriter r) = responded_status (next r)) \<and>
      rw_body (liveReloadWrapper next newResponseWriter r) = written (next r)) \<and>
   (\<not> isHTML r \<longrightarrow> rw_body (liveReloadWrapper next newResponseWriter r) = written (next r))"
proof -
  have st: "iw_statusCode (ServeHTTP_iw next (newInterceptingWriter w) r) = recorded_status StatusOK (next r)" for w
    by (simp add: ServeHTTP_iw_def iw_statusCode_fold newInterceptingWriter_def)
  have bd: "iw_body (ServeHTTP_iw next (newInterceptingWriter w) r) = written (next r)" for w
    by (simp add: ServeHTTP_iw_def iw_body_fold newInterceptingWriter_def)
  have a: "rw_status (liveReloadWrapper next newResponseWriter r) = recorded_status StatusOK (next r) \<and>
      rw_body (liveReloadWrapper next newResponseWriter r) = written (next r)"
    if "isHTML r" "recorded_status StatusOK (next r) \<noteq> StatusOK"
    using that
    by (simp add: liveReloadWrapper_def Let_def st bd rw_Write_def rw_WriteHeader_def
        setCacheHeaders_def newResponseWriter_def)
  have b: "rw_body (liveReloadWrapper next newResponseWriter r) = written (next r)" if "\<not> isHTML r"
    using that
    by (simp add: liveReloadWrapper_def Let_def ServeHTTP_def rw_body_fold
        setCacheHeaders_def newResponseWriter_def)
  have c: "recorded_status StatusOK (next r) \<noteq> StatusOK"
    if "recorded_status StatusOK (next r) \<noteq> StatusOK \<or>
        (sets_status_once (next r) \<and> responded_status (next r) \<noteq> StatusOK)"
    using that recorded_is_responded [of "next r"] by auto
  from a b c recorded_is_responded [of "next r"] show ?thesis by metis
qed

text \<open>
  An instance of each half: a 404 for \<open>/missing.html\<close> whose body even holds a
  closing body tag, and a style sheet.
\<close>

theorem passthrough_body_witness:
  "isHTML \<lparr>URL_Path = ''/missing.html''\<rparr> \<and>
   recorded_status StatusOK [CallWriteHeader 404, CallWrite ''404 page not found</body>''] \<noteq> StatusOK \<and>
   sets_status_once [CallWriteHeader 404, CallWrite ''404 page not found</body>''] \<and>
   responded_status [CallWriteHeader 404, CallWrite ''404 page not found</body>''] = 404 \<and>
   rw_status (liveReloadWrapper (\<lambda>r. [CallWriteHeader 404, CallWrite ''404 page not found</body>''])
       newResponseWriter \<lparr>URL_Path = ''/missing.html''\<rparr>) = 404 \<and>
   rw_body (liveReloadWrapper (\<lambda>r. [CallWriteHeader 404, CallWrite ''404 page not found</body>''])
       newResponseWriter \<lparr>URL_Path = ''/missing.html''\<rparr>) = ''404 page not found</body>'' \<and>
   \<not> isHTML \<lparr>URL_Path = ''/style.css''\<rparr> \<and>
   rw_body (liveReloadWrapper (\<lambda>r. [CallWrite ''body{}</body>''])
       newResponseWriter \<lparr>URL_Path = ''/style.css''\<rparr>) = ''body{}</body>''"
proof -
  let ?next = "\<lambda>r::Request. [CallWriteHeader 404, CallWrite ''404 page not found</body>'']"
  let ?r = "\<lparr>URL_Path = ''/missing.html''\<rparr>"
  have h1: "isHTML ?r" by (simp add: isHTML_def HasSuffix_def)
  have h2: "sets_status_once (?next ?r)" by simp
  have h3: "responded_status (?next ?r) = 404"
    by (simp add: responded_status_def sent_status_def rw_Write_def rw_WriteHeader_def
        newResponseWriter_def)
  have h4: "recorded_status StatusOK (?next ?r) \<noteq> StatusOK" by (simp add: StatusOK_def)
  have h5: "\<not> isHTML \<lparr>URL_Path = ''/style.css''\<rparr>" by (simp add: isHTML_def HasSuffix_def)
  have h: "recorded_status StatusOK (?next ?r) \<noteq> StatusOK \<or>
     (sets_status_once (?next ?r) \<and> responded_status (?next ?r) \<noteq> StatusOK)"
    using h2 h3 by (simp add: StatusOK_def)
  from passthrough_body [of ?r ?next] h1 h h2 h3
  have p: "rw_status (liveReloadWrapper ?next newResponseWriter ?r) = 404"
    "rw_body (liveReloadWrapper ?next newResponseWriter ?r) = ''404 page not found</body>''"
    by simp_all
  from passthrough_body [of "\<lparr>URL_Path = ''/style.css''\<rparr>" "\<lambda>r. [CallWrite ''body{}</body>'']"] h5
  have q: "rw_body (liveReloadWrapper (\<lambda>r. [CallWrite ''body{}</body>''])
       newResponseWriter \<lparr>URL_Path = ''/style.css''\<rparr>) = ''body{}</body>''"
    by simp
  from h1 h2 h3 h4 h5 p q show ?thesis by simp
qed

text \<open>
  Claim C7 as stated fails for a handler that answers 404 and then calls
  \<^verbatim>\<open>WriteHeader(200)\<close>: on the server's writer the second call is ignored and the
  response is a 404 with the body \<open>x</body>\<close>; behind the wrapper the recorder ends
  with 200, and the client gets status 200 and a body with the script in it.
\<close>

theorem status_passthrough_counterexample:
  "isHTML \<lparr>URL_Path = ''/missing.html''\<rparr> \<and>
   responded_status [CallWriteHeader 404, CallWriteHeader 200, CallWrite ''x</body>''] = 404 \<and>
   rw_status (ServeHTTP (\<lambda>r. [CallWriteHeader 404, CallWriteHeader 200, CallWrite ''x</body>''])
       newResponseWriter \<lparr>URL_Path = ''/missing.html''\<rparr>) = 404 \<and>
   rw_body (ServeHTTP (\<lambda>r. [CallWriteHeader 404, CallWriteHeader 200, CallWrite ''x</body>''])
       newResponseWriter \<lparr>URL_Path = ''/missing.html''\<rparr>) = ''x</body>'' \<and>
   rw_status (liveReloadWrapper (\<lambda>r. [CallWriteHeader 404, CallWriteHeader 200, CallWrite ''x</body>''])
       newResponseWriter \<lparr>URL_Path = ''/missing.html''\<rparr>) = 200 \<and>
   rw_body (liveReloadWrapper (\<lambda>r. [CallWriteHeader 404, CallWriteHeader 200, CallWrite ''x</body>''])
       newResponseWriter \<lparr>URL_Path = ''/missing.html''\<rparr>) = ''x'' @ liveReloadScript @ ''</body>'' \<and>
   rw_body (liveReloadWrapper (\<lambda>r. [CallWriteHeader 404, CallWriteHeader 200, CallWrite ''x</body>''])
       newResponseWriter \<lparr>URL_Path = ''/missing.html''\<rparr>) \<noteq> ''x</body>''"
proof -
  let ?next = "\<lambda>r::Request. [CallWriteHeader 404, CallWriteHeader 200, CallWrite ''x</body>'']"
  let ?r = "\<lparr>URL_Path = ''/missing.html''\<rparr>"
  have h: "isHTML ?r" by (simp add: isHTML_def HasSuffix_def)
  have d: "responded_status (?next ?r) = 404"
    "rw_status (ServeHTTP ?next newResponseWriter ?r) = 404"
    "rw_body (ServeHTTP ?next newResponseWriter ?r) = ''x</body>''"
    by (simp_all add: responded_status_def sent_status_def ServeHTTP_def rw_Write_def
        rw_WriteHeader_def newResponseWriter_def)
  have s: "rw_status (liveReloadWrapper ?next newResponseWriter ?r) = 200"
    by (simp add: liveReloadWrapper_def Let_def h ServeHTTP_iw_def
        newInterceptingWriter_def iw_Write_def iw_WriteHeader_def StatusOK_def
        rw_Write_def rw_WriteHeader_def setCacheHeaders_def newResponseWriter_def)
  have b: "rw_body (liveReloadWrapper ?next newResponseWriter ?r) = ''x'' @ liveReloadScript @ ''</body>''"
    by (simp add: liveReloadWrapper_def Let_def h ServeHTTP_iw_def
        newInterceptingWriter_def iw_Write_def iw_WriteHeader_def StatusOK_def HasPrefix_def
        rw_Write_def rw_WriteHeader_def setCacheHeaders_def newResponseWriter_def)
  have "length (''x'' @ liveReloadScript @ ''</body>'') \<noteq> length ''x</body>''"
    by (simp add: length_liveReloadScript)
  then have n: "''x'' @ liveReloadScript @ ''</body>'' \<noteq> ''x</body>''" by metis
  from h d s b n show ?thesis by simp
qed

text \<open>
  Claim C8, as the code has it. For a request that is not page-like the inner handler
  runs directly on the real writer, with no recorder in between; status and body are
  those the handler produces on its own. The header map is not untouched, though: the
  handler starts from a header map in which the wrapper has already set the three
  cache-disabling headers.
\<close>

theorem direct_invocation:
  assumes "\<not> isHTML r"
  shows "liveReloadWrapper next w r = ServeHTTP next (setCacheHeaders w) r \<and>
         rw_wroteHeader (liveReloadWrapper next w r) = rw_wroteHeader (ServeHTTP next w r) \<and>
         rw_status (liveReloadWrapper next w r) = rw_status (ServeHTTP next w r) \<and>
         rw_body (liveReloadWrapper next w r) = rw_body (ServeHTTP next w r)"
proof -
  have eq: "liveReloadWrapper next w r = ServeHTTP next (setCacheHeaders w) r"
    using assms by (simp add: liveReloadWrapper_def Let_def)
  have "rw_wroteHeader (setCacheHeaders w) = rw_wroteHeader w"
       "rw_status (setCacheHeaders w) = rw_status w"
       "rw_body (setCacheHeaders w) = rw_body w"
    by (simp_all add: setCacheHeaders_def)
  from rw_fold_header_indep [OF this, of "next r"] eq show ?thesis
    by (simp add: ServeHTTP_def)
qed

text \<open>
  An instance: a style sheet.
\<close>

theorem direct_invocation_witness:
  "\<not> isHTML \<lparr>URL_Path = ''/style.css''\<rparr> \<and>
   liveReloadWrapper (\<lambda>r. [CallHeaderSet ''Content-Type'' ''text/css'', CallWrite ''body{}''])
       newResponseWriter \<lparr>URL_Path = ''/style.css''\<rparr> =
     ServeHTTP (\<lambda>r. [CallHeaderSet ''Content-Type'' ''text/css'', CallWrite ''body{}''])
       (setCacheHeaders newResponseWriter) \<lparr>URL_Path = ''/style.css''\<rparr> \<and>
   rw_status (liveReloadWrapper (\<lambda>r. [CallHeaderSet ''Content-Type'' ''text/css'', CallWrite ''body{}''])
       newResponseWriter \<lparr>URL_Path = ''/style.css''\<rparr>) = 200 \<and>
   rw_body (liveReloadWrapper (\<lambda>r. [CallHeaderSet ''Content-Type'' ''text/css'', CallWrite ''body{}''])
       newResponseWriter \<lparr>URL_Path = ''/style.css''\<rparr>) = ''body{}''"
proof -
  have h: "\<not> isHTML \<lparr>URL_Path = ''/style.css''\<rparr>" by (simp add: isHTML_def HasSuffix_def)
  have e: "rw_status (ServeHTTP (\<lambda>r. [CallHeaderSet ''Content-Type'' ''text/css'', CallWrite ''body{}''])
              newResponseWriter \<lparr>URL_Path = ''/style.css''\<rparr>) = 200 \<and>
           rw_body (ServeHTTP (\<lambda>r. [CallHeaderSet ''Content-Type'' ''text/css'', CallWrite ''body{}''])
              newResponseWriter \<lparr>URL_Path = ''/style.css''\<rparr>) = ''body{}''"
    by (simp add: ServeHTTP_def rw_Write_def rw_WriteHeader_def newResponseWriter_def StatusOK_def)
  from direct_invocation [OF h, of "\<lambda>r. [CallHeaderSet ''Content-Type'' ''text/css'', CallWrite ''body{}'']"
      newResponseWriter] h e
  show ?thesis by metis
qed

text \<open>
  Claim C8 as stated fails on the headers: served through the wrapper, a style sheet
  carries a Cache-Control header that the inner handler never set.
\<close>

theorem headers_unmodified_counterexample:
  "\<not> isHTML \<lparr>URL_Path = ''/style.css''\<rparr> \<and>
   rw_sentHeader (ServeHTTP (\<lambda>r. [CallWrite ''body{}'']) newResponseWriter
       \<lparr>URL_Path = ''/style.css''\<rparr>) ''Cache-Control'' = None \<and>
   rw_sentHeader (liveReloadWrapper (\<lambda>r. [CallWrite ''body{}'']) newResponseWriter
       \<lparr>URL_Path = ''/style.css''\<rparr>) ''Cache-Control'' = Some [''no-cache, no-store, must-revalidate'']"
  by (simp add: liveReloadWrapper_def Let_def isHTML_def HasSuffix_def ServeHTTP_def
      rw_Write_def rw_WriteHeader_def setCacheHeaders_def newResponseWriter_def Header_Set_def)

text \<open>
  Claim C9. A new recorder holds status 200; so for a page-like request whose handler
  never calls \<^verbatim>\<open>WriteHeader\<close> the recorded status is still 200 after the handler has
  run, and the response goes down the rewriting path: status 200, the body with the
  first closing body tag replaced by script and tag, Content-Length set to the length
  of that body.
\<close>

theorem default_status_injects:
  assumes "isHTML r" and "\<not> calls_WriteHeader (next r)"
  shows "iw_statusCode (newInterceptingWriter w) = 200 \<and>
         iw_statusCode (ServeHTTP_iw next (newInterceptingWriter (setCacheHeaders w)) r) = StatusOK \<and>
         rw_body (liveReloadWrapper next newResponseWriter r) =
           Replace (written (next r)) ''</body>'' (liveReloadScript @ ''</body>'') 1 \<and>
         rw_status (liveReloadWrapper next newResponseWriter r) = 200 \<and>
         rw_sentHeader (liveReloadWrapper next newResponseWriter r) ''Content-Length'' =
           Some [Sprint (length (Replace (written (next r)) ''</body>'' (liveReloadScript @ ''</body>'') 1))]"
proof -
  have st: "iw_statusCode (ServeHTTP_iw next (newInterceptingWriter w') r) = StatusOK" for w'
    using assms(2)
    by (simp add: ServeHTTP_iw_def iw_statusCode_fold newInterceptingWriter_def
        recorded_status_no_WriteHeader)
  have bd: "iw_body (ServeHTTP_iw next (newInterceptingWriter w') r) = written (next r)" for w'
    by (simp add: ServeHTTP_iw_def iw_body_fold newInterceptingWriter_def)
  show ?thesis
    using assms(1)
    by (simp add: liveReloadWrapper_def Let_def st bd rw_Write_def rw_WriteHeader_def
        setCacheHeaders_def newResponseWriter_def Header_Set_def)
       (simp add: newInterceptingWriter_def StatusOK_def)
qed

text \<open>
  An instance: a handler that only writes, in two pieces, for the path \<open>/\<close>.
\<close>

theorem default_status_injects_witness:
  "isHTML \<lparr>URL_Path = ''/''\<rparr> \<and>
   \<not> calls_WriteHeader [CallWrite ''<body>'', CallWrite ''x</body>''] \<and>
   rw_status (liveReloadWrapper (\<lambda>r. [CallWrite ''<body>'', CallWrite ''x</body>''])
       newResponseWriter \<lparr>URL_Path = ''/''\<rparr>) = 200 \<and>
   rw_body (liveReloadWrapper (\<lambda>r. [CallWrite ''<body>'', CallWrite ''x</body>''])
       newResponseWriter \<lparr>URL_Path = ''/''\<rparr>) = ''<body>x'' @ liveReloadScript @ ''</body>''"
proof -
  have h1: "isHTML \<lparr>URL_Path = ''/''\<rparr>" by (simp add: isHTML_def HasSuffix_def)
  have h2: "\<not> calls_WriteHeader [CallWrite ''<body>'', CallWrite ''x</body>'']" by simp
  from default_status_injects [of "\<lparr>URL_Path = ''/''\<rparr>"
      "\<lambda>r. [CallWrite ''<body>'', CallWrite ''x</body>'']", OF h1] h1 h2
  show ?thesis by (simp add: HasPrefix_def)
qed


section \<open>Properties of the reload hub\<close>

lemma broadcastTo_other:
  assumes "c \<noteq> k"
  shows "conns (snd (broadcastTo m k (h, wd))) c = conns wd c"
    and "map_of (clients (fst (broadcastTo m k (h, wd)))) c = map_of (clients h) c"
  using assms
  by (auto simp: broadcastTo_def WriteMessage_def Close_def log_Println_def Let_def
      AList.delete_conv split: prod.splits option.splits if_splits)

lemma broadcastTo_self_fails:
  assumes "write_fails (conns wd k)"
  shows "cs_writes (conns (snd (broadcastTo m k (h, wd))) k) = Suc (cs_writes (conns wd k))"
    and "cs_inbox (conns (snd (broadcastTo m k (h, wd))) k) = cs_inbox (conns wd k)"
    and "cs_closed (conns (snd (broadcastTo m k (h, wd))) k)"
    and "map_of (clients (fst (broadcastTo m k (h, wd)))) k = None"
  using assms
  by (auto simp: broadcastTo_def WriteMessage_def Close_def log_Println_def Let_def
      write_fails_def AList.delete_conv split: prod.splits option.splits if_splits)

lemma broadcastTo_self_ok:
  assumes "\<not> write_fails (conns wd k)"
  shows "cs_writes (conns (snd (broadcastTo m k (h, wd))) k) = Suc (cs_writes (conns wd k))"
    and "cs_inbox (conns (snd (broadcastTo m k (h, wd))) k) = cs_inbox (conns wd k) @ [m]"
    and "cs_closed (conns (snd (broadcastTo m k (h, wd))) k) = cs_closed (conns wd k)"
    and "map_of (clients (fst (broadcastTo m k (h, wd)))) k = map_of (clients h) k"
  using assms
  by (auto simp: broadcastTo_def WriteMessage_def Close_def log_Println_def Let_def
      write_fails_def AList.delete_conv split: prod.splits option.splits if_splits)

lemma fold_broadcastTo_other:
  "c \<notin> set ks \<Longrightarrow>
     conns (snd (fold (broadcastTo m) ks (h, wd))) c = conns wd c \<and>
     map_of (clients (fst (fold (broadcastTo m) ks (h, wd)))) c = map_of (clients h) c"
proof (induction ks arbitrary: h wd)
  case Nil
  then show ?case by simp
next
  case (Cons k ks)
  obtain h' wd' where st: "broadcastTo m k (h, wd) = (h', wd')" by (cases "broadcastTo m k (h, wd)")
  from Cons.prems have ne: "c \<noteq> k" and nin: "c \<notin> set ks" by auto
  from broadcastTo_other [OF ne, of m h wd] st
  have "conns wd' c = conns wd c" "map_of (clients h') c = map_of (clients h) c" by simp_all
  with Cons.IH [OF nin, of h' wd'] st show ?case by simp
qed

lemma fold_broadcastTo_member:
  assumes "distinct ks" and "c \<in> set ks"
  shows "cs_writes (conns (snd (fold (broadcastTo m) ks (h, wd))) c) = Suc (cs_writes (conns wd c)) \<and>
         (if write_fails (conns wd c)
          then cs_inbox (conns (snd (fold (broadcastTo m) ks (h, wd))) c) = cs_inbox (conns wd c) \<and>
               cs_closed (conns (snd (fold (broadcastTo m) ks (h, wd))) c) \<and>
               map_of (clients (fst (fold (broadcastTo m) ks (h, wd)))) c = None
          else cs_inbox (conns (snd (fold (broadcastTo m) ks (h, wd))) c) = cs_inbox (conns wd c) @ [m] \<and>
               map_of (clients (fst (fold (broadcastTo m) ks (h, wd)))) c = map_of (clients h) c)"
  using assms
proof (induction ks arbitrary: h wd)
  case Nil
  then show ?case by simp
next
  case (Cons k ks)
  obtain h' wd' where st: "broadcastTo m k (h, wd) = (h', wd')" by (cases "broadcastTo m k (h, wd)")
  show ?case
  proof (cases "c = k")
    case True
    with Cons.prems have nin: "c \<notin> set ks" by simp
    from fold_broadcastTo_other [OF nin, of m h' wd']
    have keep: "conns (snd (fold (broadcastTo m) ks (h', wd'))) c = conns wd' c"
      "map_of (clients (fst (fold (broadcastTo m) ks (h', wd')))) c = map_of (clients h') c"
      by simp_all
    show ?thesis
    proof (cases "write_fails (conns wd c)")
      case wf: True
      from broadcastTo_self_fails [of wd k m h] wf True st keep show ?thesis by simp
    next
      case wf: False
      from broadcastTo_self_ok [of wd k m h] wf True st keep show ?thesis by simp
    qed
  next
    case False
    with Cons.prems have d: "distinct ks" and mem: "c \<in> set ks" by auto
    from broadcastTo_other [OF False, of m h wd] st
    have "conns wd' c = conns wd c" "map_of (clients h') c = map_of (clients h) c" by simp_all
    with Cons.IH [OF d mem, of h' wd'] st show ?thesis by simp
  qed
qed

lemma register_conns: "conns (snd (register c hw)) = conns (snd hw)"
  by (cases hw) (simp add: register_def log_Println_def)

lemma members_map_of: "c \<in> members h \<longleftrightarrow> map_of (clients h) c \<noteq> None"
  by (simp add: members_def map_of_eq_None_iff)

text \<open>
  Claim C3. In one pass of \<^verbatim>\<open>broadcastMessage\<close>, whatever the order of the range:
  on every client that is a member when the pass starts \<^verbatim>\<open>WriteMessage\<close> is called
  exactly once; a client whose write fails (its connection is broken or closed before
  the pass) is closed, is no member after the pass and has received nothing; a client
  whose write succeeds stays a member and has received the payload once; and a
  connection that is no member when the pass starts is not touched by the pass, also
  when it registers afterwards (the mutex holds a concurrent \<^verbatim>\<open>register\<close> back until
  the pass is over).
\<close>

theorem broadcast_pass:
  assumes "distinct (map fst (clients h))"
  shows "(\<forall>c \<in> members h.
            cs_writes (conns (snd (broadcastMessage m (h, wd))) c) = Suc (cs_writes (conns wd c)) \<and>
            (if write_fails (conns wd c)
             then cs_closed (conns (snd (broadcastMessage m (h, wd))) c) \<and>
                  c \<notin> members (fst (broadcastMessage m (h, wd))) \<and>
                  cs_inbox (conns (snd (broadcastMessage m (h, wd))) c) = cs_inbox (conns wd c)
             else c \<in> members (fst (broadcastMessage m (h, wd))) \<and>
                  cs_inbox (conns (snd (broadcastMessage m (h, wd))) c) = cs_inbox (conns wd c) @ [m])) \<and>
         (\<forall>c. c \<notin> members h \<longrightarrow>
            conns (snd (broadcastMessage m (h, wd))) c = conns wd c \<and>
            conns (snd (register c (broadcastMessage m (h, wd)))) c = conns wd c)"
proof (intro conjI ballI allI impI)
  fix c assume c: "c \<in> members h"
  then have mem: "c \<in> set (map fst (clients h))" by (simp add: members_def)
  from c have some: "map_of (clients h) c \<noteq> None" by (simp add: members_map_of)
  from fold_broadcastTo_member [OF assms mem, of m h wd] some
  show "cs_writes (conns (snd (broadcastMessage m (h, wd))) c) = Suc (cs_writes (conns wd c))"
    and "if write_fails (conns wd c)
             then cs_closed (conns (snd (broadcastMessage m (h, wd))) c) \<and>
                  c \<notin> members (fst (broadcastMessage m (h, wd))) \<and>
                  cs_inbox (conns (snd (broadcastMessage m (h, wd))) c) = cs_inbox (conns wd c)
             else c \<in> members (fst (broadcastMessage m (h, wd))) \<and>
                  cs_inbox (conns (snd (broadcastMessage m (h, wd))) c) = cs_inbox (conns wd c) @ [m]"
    by (simp_all add: broadcastMessage_def members_map_of split: if_splits)
next
  fix c assume "c \<notin> members h"
  then have nin: "c \<notin> set (map fst (clients h))" by (simp add: members_def)
  from fold_broadcastTo_other [OF nin, of m h wd]
  show "conns (snd (broadcastMessage m (h, wd))) c = conns wd c"
    and "conns (snd (register c (broadcastMessage m (h, wd)))) c = conns wd c"
    by (simp_all add: broadcastMessage_def register_conns)
qed

text \<open>
  An instance: clients 1 and 2, the connection of 2 broken; 3 registers after the pass.
\<close>

theorem broadcast_pass_witness:
  "distinct (map fst (clients \<lparr>clients = [(1, True), (2, True)]\<rparr>)) \<and>
   1 \<in> members \<lparr>clients = [(1, True), (2, True)]\<rparr> \<and>
   2 \<in> members \<lparr>clients = [(1, True), (2, True)]\<rparr> \<and>
   3 \<notin> members \<lparr>clients = [(1, True), (2, True)]\<rparr> \<and>
   \<not> write_fails (conns \<lparr>conns = (\<lambda>c. freshConn\<lparr>cs_broken := (c = 2)\<rparr>), logged = []\<rparr> 1) \<and>
   write_fails (conns \<lparr>conns = (\<lambda>c. freshConn\<lparr>cs_broken := (c = 2)\<rparr>), logged = []\<rparr> 2) \<and>
   cs_inbox (conns (snd (broadcastMessage ''reload'' (\<lparr>clients = [(1, True), (2, True)]\<rparr>,
       \<lparr>conns = (\<lambda>c. freshConn\<lparr>cs_broken := (c = 2)\<rparr>), logged = []\<rparr>))) 1) = [''reload''] \<and>
   cs_inbox (conns (snd (broadcastMessage ''reload'' (\<lparr>clients = [(1, True), (2, True)]\<rparr>,
       \<lparr>conns = (\<lambda>c. freshConn\<lparr>cs_broken := (c = 2)\<rparr>), logged = []\<rparr>))) 2) = [] \<and>
   cs_closed (conns (snd (broadcastMessage ''reload'' (\<lparr>clients = [(1, True), (2, True)]\<rparr>,
       \<lparr>conns = (\<lambda>c. freshConn\<lparr>cs_broken := (c = 2)\<rparr>), logged = []\<rparr>))) 2) \<and>
   2 \<notin> members (fst (broadcastMessage ''reload'' (\<lparr>clients = [(1, True), (2, True)]\<rparr>,
       \<lparr>conns = (\<lambda>c. freshConn\<lparr>cs_broken := (c = 2)\<rparr>), logged = []\<rparr>))) \<and>
   cs_inbox (conns (snd (register 3 (broadcastMessage ''reload'' (\<lparr>clients = [(1, True), (2, True)]\<rparr>,
       \<lparr>conns = (\<lambda>c. freshConn\<lparr>cs_broken := (c = 2)\<rparr>), logged = []\<rparr>)))) 3) = []"
proof -
  let ?h = "\<lparr>clients = [(1, True), (2, True)]\<rparr>"
  let ?wd = "\<lparr>conns = (\<lambda>c. freshConn\<lparr>cs_broken := (c = 2)\<rparr>), logged = []\<rparr>"
  have d: "distinct (map fst (clients ?h))" by simp
  have m: "members ?h = {1, 2}" by (simp add: members_def)
  have w: "\<not> write_fails (conns ?wd 1)" "write_fails (conns ?wd 2)"
    by (simp_all add: write_fails_def freshConn_def)
  have i: "cs_inbox (conns ?wd c) = []" for c by (simp add: freshConn_def)
  from broadcast_pass [OF d, of "''reload''" ?wd] have
    "(\<forall>c \<in> {1, 2}.
            cs_writes (conns (snd (broadcastMessage ''reload'' (?h, ?wd))) c) = Suc (cs_writes (conns ?wd c)) \<and>
            (if write_fails (conns ?wd c)
             then cs_closed (conns (snd (broadcastMessage ''reload'' (?h, ?wd))) c) \<and>
                  c \<notin> members (fst (broadcastMessage ''reload'' (?h, ?wd))) \<and>
                  cs_inbox (conns (snd (broadcastMessage ''reload'' (?h, ?wd))) c) = cs_inbox (conns ?wd c)
             else c \<in> members (fst (broadcastMessage ''reload'' (?h, ?wd))) \<and>
                  cs_inbox (conns (snd (broadcastMessage ''reload'' (?h, ?wd))) c) = cs_inbox (conns ?wd c) @ [''reload''])) \<and>
         (\<forall>c. c \<notin> {1, 2} \<longrightarrow>
            conns (snd (broadcastMessage ''reload'' (?h, ?wd))) c = conns ?wd c \<and>
            conns (snd (register c (broadcastMessage ''reload'' (?h, ?wd)))) c = conns ?wd c)"
    unfolding m .
  then have
    "cs_inbox (conns (snd (broadcastMessage ''reload'' (?h, ?wd))) 1) = [''reload'']"
    "cs_inbox (conns (snd (broadcastMessage ''reload'' (?h, ?wd))) 2) = []"
    "cs_closed (conns (snd (broadcastMessage ''reload'' (?h, ?wd))) 2)"
    "2 \<notin> members (fst (broadcastMessage ''reload'' (?h, ?wd)))"
    "conns (snd (register 3 (broadcastMessage ''reload'' (?h, ?wd)))) 3 = conns ?wd 3"
    using w i by auto
  then show ?thesis using d m w i by simp
qed


section \<open>Properties of the scheduler\<close>

lemma builds_append: "builds (xs @ ys) = builds xs + builds ys"
  by (induction xs rule: builds.induct) simp_all

lemma broadcasts_append: "broadcasts (xs @ ys) = broadcasts xs + broadcasts ys"
  by (induction xs rule: broadcasts.induct) simp_all



lemma handleEvent_rejected: "\<not> accepted event s \<Longrightarrow> handleEvent buildFunc opts event s = s"
  by (auto simp: handleEvent_def accepted_def)

lemma handleEvent_failed:
  assumes "accepted event s" and "buildFunc opts (now s + 100 * Millisecond) = (d, Some e)"
  shows "handleEvent buildFunc opts event s =
           s\<lparr>now := now s + 100 * Millisecond + d,
             lastBuildTime := Some (now s + 100 * Millisecond + d),
             world := log_Println (''Error rebuilding site: '' @ e)
                        (log_Println (''Change detected in '' @ ev_Name event @ '', rebuilding...'') (world s)),
             trace := trace s @ [Slept (100 * Millisecond), Built (now s + 100 * Millisecond) (Some e)]\<rparr>"
  using assms
  by (simp add: handleEvent_def accepted_def Let_def time_Sleep_def sched_log_def)

lemma handleEvent_succeeded:
  assumes "accepted event s" and "buildFunc opts (now s + 100 * Millisecond) = (d, None)"
  shows "handleEvent buildFunc opts event s =
           s\<lparr>now := now s + 100 * Millisecond + d,
             lastBuildTime := Some (now s + 100 * Millisecond + d),
             hub := fst (broadcastMessage ''reload'' (hub s,
                      log_Println ''Site rebuilt successfully. Triggering reload...''
                        (log_Println (''Change detected in '' @ ev_Name event @ '', rebuilding...'') (world s)))),
             world := snd (broadcastMessage ''reload'' (hub s,
                      log_Println ''Site rebuilt successfully. Triggering reload...''
                        (log_Println (''Change detected in '' @ ev_Name event @ '', rebuilding...'') (world s)))),
             trace := trace s @ [Slept (100 * Millisecond), Built (now s + 100 * Millisecond) None,
                                 Broadcast ''reload'']\<rparr>"
  using assms
  by (simp add: handleEvent_def accepted_def Let_def time_Sleep_def sched_log_def split: prod.splits)

lemma handleEvent_trace:
  "trace (handleEvent buildFunc opts event s) =
     (if accepted event s
      then trace s @ [Slept (100 * Millisecond),
                      Built (now s + 100 * Millisecond) (snd (buildFunc opts (now s + 100 * Millisecond)))] @
           (if snd (buildFunc opts (now s + 100 * Millisecond)) = None then [Broadcast ''reload''] else [])
      else trace s)"
proof (cases "accepted event s")
  case False
  then show ?thesis by (simp add: handleEvent_rejected)
next
  case True
  obtain d err where b: "buildFunc opts (now s + 100 * Millisecond) = (d, err)"
    by (cases "buildFunc opts (now s + 100 * Millisecond)")
  show ?thesis
  proof (cases err)
    case None
    with True b show ?thesis by (simp add: handleEvent_succeeded)
  next
    case (Some e)
    with True b show ?thesis by (simp add: handleEvent_failed)
  qed
qed

lemma handleEvent_clock:
  "accepted event s \<Longrightarrow>
     now (handleEvent buildFunc opts event s) =
       now s + 100 * Millisecond + fst (buildFunc opts (now s + 100 * Millisecond)) \<and>
     lastBuildTime (handleEvent buildFunc opts event s) = Some (now (handleEvent buildFunc opts event s))"
proof -
  assume a: "accepted event s"
  obtain d err where b: "buildFunc opts (now s + 100 * Millisecond) = (d, err)"
    by (cases "buildFunc opts (now s + 100 * Millisecond)")
  show ?thesis
  proof (cases err)
    case None
    with a b show ?thesis by (simp add: handleEvent_succeeded)
  next
    case (Some e)
    with a b show ?thesis by (simp add: handleEvent_failed)
  qed
qed

lemma quiet_after_build:
  assumes "lastBuildTime s = Some T" and "now s \<le> T + debounceDuration"
    and "\<forall>(t, i) \<in> set inputs. (\<exists>event. i = RecvEvent event) \<and> t \<le> T + debounceDuration"
  shows "trace (state_of (watchLoop buildFunc opts s inputs)) = trace s"
  using assms
proof (induction inputs arbitrary: s)
  case Nil
  then show ?case by simp
next
  case (Cons x inputs)
  obtain t i where x: "x = (t, i)" by (cases x)
  with Cons.prems(3) obtain event where i: "i = RecvEvent event" and t: "t \<le> T + debounceDuration"
    by auto
  let ?s1 = "s\<lparr>now := max (now s) t\<rparr>"
  have "now ?s1 - T \<le> debounceDuration" using Cons.prems(2) t by simp
  then have rej: "\<not> accepted event ?s1"
    using Cons.prems(1) by (simp add: accepted_def time_Since_def)
  have "trace (state_of (watchLoop buildFunc opts ?s1 inputs)) = trace ?s1"
    using Cons.prems t by (intro Cons.IH) auto
  with rej x i show ?case by (simp add: handleEvent_rejected)
qed

lemma accepted_then_quiet:
  assumes acc: "accepted event s1"
    and bound: "\<forall>(t, i) \<in> set rest. (\<exists>event. i = RecvEvent event) \<and> t \<le> lo + debounceDuration"
    and lo: "lo \<le> now s1"
  shows "builds (trace (state_of (watchLoop buildFunc opts (handleEvent buildFunc opts event s1) rest))) =
           Suc (builds (trace s1))"
proof -
  let ?s' = "handleEvent buildFunc opts event s1"
  from handleEvent_clock [OF acc, of buildFunc opts]
  have last: "lastBuildTime ?s' = Some (now ?s')" and ge: "now s1 \<le> now ?s'" by simp_all
  have "\<forall>(t, i) \<in> set rest. (\<exists>event. i = RecvEvent event) \<and> t \<le> now ?s' + debounceDuration"
    using bound lo ge by fastforce
  from quiet_after_build [OF last _ this, of buildFunc opts]
  have "trace (state_of (watchLoop buildFunc opts ?s' rest)) = trace ?s'" by simp
  then show ?thesis using acc by (simp add: handleEvent_trace builds_append)
qed

lemma burst_at_most_one:
  assumes "\<forall>(t, i) \<in> set inputs. (\<exists>event. i = RecvEvent event) \<and> lo \<le> t \<and> t \<le> lo + debounceDuration"
  shows "builds (trace (state_of (watchLoop buildFunc opts s inputs))) \<le> Suc (builds (trace s))"
  using assms
proof (induction inputs arbitrary: s)
  case Nil
  then show ?case by simp
next
  case (Cons x inputs)
  obtain t i where x: "x = (t, i)" by (cases x)
  with Cons.prems obtain event where i: "i = RecvEvent event" and t: "lo \<le> t" by auto
  let ?s1 = "s\<lparr>now := max (now s) t\<rparr>"
  show ?case
  proof (cases "accepted event ?s1")
    case True
    have "builds (trace (state_of (watchLoop buildFunc opts (handleEvent buildFunc opts event ?s1) inputs))) =
           Suc (builds (trace ?s1))"
      using Cons.prems t by (intro accepted_then_quiet [OF True, of _ lo]) auto
    with x i show ?thesis by simp
  next
    case False
    have "builds (trace (state_of (watchLoop buildFunc opts ?s1 inputs))) \<le> Suc (builds (trace ?s1))"
      using Cons.prems by (intro Cons.IH) auto
    with False x i show ?thesis by (simp add: handleEvent_rejected)
  qed
qed

lemma watchLoop_waits:
  "\<forall>(t, i) \<in> set inputs. i \<noteq> EventsClosed \<and> i \<noteq> ErrorsClosed \<Longrightarrow>
     \<exists>s'. watchLoop buildFunc opts s inputs = Waiting s'"
proof (induction inputs arbitrary: s)
  case Nil
  then show ?case by simp
next
  case (Cons x inputs)
  obtain t i where x: "x = (t, i)" by (cases x)
  from Cons.prems have rest: "\<forall>(t, i) \<in> set inputs. i \<noteq> EventsClosed \<and> i \<noteq> ErrorsClosed" by simp
  from Cons.prems x show ?case
    by (cases i) (simp_all add: Cons.IH [OF rest])
qed

lemma idle_first: "watchLoop instant_build no_options idle [(0, RecvEvent write_event)] =
   Waiting (idle\<lparr>now := 100 * Millisecond, lastBuildTime := Some (100 * Millisecond),
     world := \<lparr>conns = (\<lambda>c. freshConn), logged = [''Change detected in content/post.md, rebuilding...'',
        ''Site rebuilt successfully. Triggering reload...'']\<rparr>,
     trace := [Slept (100 * Millisecond), Built (100 * Millisecond) None, Broadcast ''reload'']\<rparr>)"
  by (simp add: idle_def write_event_def instant_build_def handleEvent_def qualifies_def Has_def
      time_Since_def maxDuration_def debounceDuration_def Millisecond_def Let_def time_Sleep_def
      sched_log_def log_Println_def broadcastMessage_def newHub_def)

text \<open>
  Claim C2, as the code has it. \<open>s\<close> is the state of the loop when it receives an
  event. (a) The build function is called only for an event that passes the gate: a
  qualifying event, received more than 500 ms after the last completed build (or before
  any build); any other event leaves the state of the loop as it is, so it is dropped
  for good. (b) For an event that passes the gate the loop sleeps 100 ms and then calls the build
  function, and the instant at which the build is over becomes the last build time.
  (c) For a burst of one or more qualifying events that all arrive within an interval
  of 500 ms, the build function is called at most once, and exactly once when the first
  event of the burst passes the gate.
\<close>

theorem debounce_gate:
  "(builds (trace (handleEvent buildFunc opts event s)) \<noteq> builds (trace s) \<longrightarrow> accepted event s) \<and>
   (\<not> accepted event s \<longrightarrow> handleEvent buildFunc opts event s = s) \<and>
   (accepted event s \<longrightarrow>
      trace (handleEvent buildFunc opts event s) =
        trace s @ [Slept (100 * Millisecond),
                   Built (now s + 100 * Millisecond) (snd (buildFunc opts (now s + 100 * Millisecond)))] @
        (if snd (buildFunc opts (now s + 100 * Millisecond)) = None then [Broadcast ''reload''] else []) \<and>
      lastBuildTime (handleEvent buildFunc opts event s) = Some (now (handleEvent buildFunc opts event s))) \<and>
   ((\<forall>(t, i) \<in> set ((t0, RecvEvent event0) # rest).
        (\<exists>e. i = RecvEvent e \<and> qualifies e) \<and> lo \<le> t \<and> t \<le> lo + debounceDuration) \<longrightarrow>
      rebuilds_triggered buildFunc opts s ((t0, RecvEvent event0) # rest) \<le> 1 \<and>
      (accepted event0 (s\<lparr>now := max (now s) t0\<rparr>) \<longrightarrow>
         rebuilds_triggered buildFunc opts s ((t0, RecvEvent event0) # rest) = 1))"
proof (intro conjI impI)
  assume "builds (trace (handleEvent buildFunc opts event s)) \<noteq> builds (trace s)"
  then show "accepted event s" by (rule contrapos_np) (simp add: handleEvent_rejected)
next
  assume "\<not> accepted event s"
  then show "handleEvent buildFunc opts event s = s" by (rule handleEvent_rejected)
next
  assume "accepted event s"
  then show "trace (handleEvent buildFunc opts event s) =
        trace s @ [Slept (100 * Millisecond),
                   Built (now s + 100 * Millisecond) (snd (buildFunc opts (now s + 100 * Millisecond)))] @
        (if snd (buildFunc opts (now s + 100 * Millisecond)) = None then [Broadcast ''reload''] else [])"
    by (simp add: handleEvent_trace)
next
  assume "accepted event s"
  then show "lastBuildTime (handleEvent buildFunc opts event s) =
      Some (now (handleEvent buildFunc opts event s))"
    by (simp add: handleEvent_clock)
next
  assume b: "\<forall>(t, i) \<in> set ((t0, RecvEvent event0) # rest).
        (\<exists>e. i = RecvEvent e \<and> qualifies e) \<and> lo \<le> t \<and> t \<le> lo + debounceDuration"
  then have "\<forall>(t, i) \<in> set ((t0, RecvEvent event0) # rest).
        (\<exists>e. i = RecvEvent e) \<and> lo \<le> t \<and> t \<le> lo + debounceDuration"
    by fastforce
  from burst_at_most_one [OF this, of buildFunc opts s]
  show "rebuilds_triggered buildFunc opts s ((t0, RecvEvent event0) # rest) \<le> 1"
    by (simp add: rebuilds_triggered_def)
next
  assume b: "\<forall>(t, i) \<in> set ((t0, RecvEvent event0) # rest).
        (\<exists>e. i = RecvEvent e \<and> qualifies e) \<and> lo \<le> t \<and> t \<le> lo + debounceDuration"
    and a: "accepted event0 (s\<lparr>now := max (now s) t0\<rparr>)"
  from b have r: "\<forall>(t, i) \<in> set rest. (\<exists>e. i = RecvEvent e) \<and> t \<le> lo + debounceDuration"
    by fastforce
  from b have "lo \<le> now (s\<lparr>now := max (now s) t0\<rparr>)" by (simp add: le_max_iff_disj)
  from accepted_then_quiet [OF a r this, of buildFunc opts]
  show "rebuilds_triggered buildFunc opts s ((t0, RecvEvent event0) # rest) = 1"
    by (simp add: rebuilds_triggered_def)
qed

text \<open>
  An instance: two writes 50 ms apart, received by a scheduler that has not built yet;
  and a write received 100 ms after a build, which is dropped.
\<close>

theorem debounce_gate_witness:
  "qualifies write_event \<and> 50 * Millisecond \<le> debounceDuration \<and>
   accepted write_event (idle\<lparr>now := max (now idle) 0\<rparr>) \<and>
   rebuilds_triggered instant_build no_options idle
     [(0, RecvEvent write_event), (50 * Millisecond, RecvEvent write_event)] = 1 \<and>
   builds (trace (handleEvent instant_build no_options write_event idle)) \<noteq> builds (trace idle) \<and>
   trace (handleEvent instant_build no_options write_event idle) =
     [Slept (100 * Millisecond), Built (100 * Millisecond) None, Broadcast ''reload''] \<and>
   \<not> accepted write_event (idle\<lparr>now := 200 * Millisecond, lastBuildTime := Some (100 * Millisecond)\<rparr>) \<and>
   handleEvent instant_build no_options write_event
       (idle\<lparr>now := 200 * Millisecond, lastBuildTime := Some (100 * Millisecond)\<rparr>) =
     idle\<lparr>now := 200 * Millisecond, lastBuildTime := Some (100 * Millisecond)\<rparr>"
proof -
  have q: "qualifies write_event" by (simp add: qualifies_def Has_def write_event_def)
  have a: "accepted write_event idle"
    by (simp add: accepted_def q idle_def time_Since_def maxDuration_def debounceDuration_def
        Millisecond_def)
  have a': "accepted write_event (idle\<lparr>now := max (now idle) 0\<rparr>)"
    by (simp add: accepted_def q idle_def time_Since_def maxDuration_def debounceDuration_def
        Millisecond_def)
  have b: "\<forall>(t, i) \<in> set [(0, RecvEvent write_event), (50 * Millisecond, RecvEvent write_event)].
        (\<exists>e. i = RecvEvent e \<and> qualifies e) \<and> 0 \<le> t \<and> t \<le> 0 + debounceDuration"
    using q by (simp add: debounceDuration_def)
  have n: "builds (trace (handleEvent instant_build no_options write_event idle)) \<noteq> builds (trace idle)"
    using a by (simp add: handleEvent_trace builds_append)
  note g = debounce_gate [of instant_build no_options write_event idle 0 write_event
      "[(50 * Millisecond, RecvEvent write_event)]" 0]
  from g b a' have r: "rebuilds_triggered instant_build no_options idle
     [(0, RecvEvent write_event), (50 * Millisecond, RecvEvent write_event)] = 1"
    by blast
  from g a have "trace (handleEvent instant_build no_options write_event idle) =
        trace idle @ [Slept (100 * Millisecond),
                   Built (now idle + 100 * Millisecond) (snd (instant_build no_options (now idle + 100 * Millisecond)))] @
        (if snd (instant_build no_options (now idle + 100 * Millisecond)) = None then [Broadcast ''reload''] else [])"
    by blast
  then have tr: "trace (handleEvent instant_build no_options write_event idle) =
     [Slept (100 * Millisecond), Built (100 * Millisecond) None, Broadcast ''reload'']"
    by (simp add: instant_build_def idle_def)
  have na: "\<not> accepted write_event (idle\<lparr>now := 200 * Millisecond, lastBuildTime := Some (100 * Millisecond)\<rparr>)"
    by (simp add: accepted_def time_Since_def maxDuration_def debounceDuration_def Millisecond_def)
  from debounce_gate [of instant_build no_options write_event
      "idle\<lparr>now := 200 * Millisecond, lastBuildTime := Some (100 * Millisecond)\<rparr>"] na
  have dropped: "handleEvent instant_build no_options write_event
       (idle\<lparr>now := 200 * Millisecond, lastBuildTime := Some (100 * Millisecond)\<rparr>) =
     idle\<lparr>now := 200 * Millisecond, lastBuildTime := Some (100 * Millisecond)\<rparr>"
    by blast
  have "50 * Millisecond \<le> debounceDuration" by (simp add: debounceDuration_def)
  with q a' r n tr na dropped show ?thesis by blast
qed

text \<open>
  Claim C2 as stated fails for a burst that begins less than 500 ms after a completed
  rebuild: a build is over at 100 ms; the two writes at 200 ms and 250 ms trigger no
  rebuild at all, not one.
\<close>

theorem burst_after_rebuild_counterexample:
  "qualifies write_event \<and>
   lastBuildTime (state_of (watchLoop instant_build no_options idle [(0, RecvEvent write_event)])) =
     Some (100 * Millisecond) \<and>
   rebuilds_triggered instant_build no_options
     (state_of (watchLoop instant_build no_options idle [(0, RecvEvent write_event)]))
     [(200 * Millisecond, RecvEvent write_event), (250 * Millisecond, RecvEvent write_event)] \<noteq> 1"
proof -
  have q: "qualifies write_event" by (simp add: qualifies_def Has_def write_event_def)
  have "rebuilds_triggered instant_build no_options
     (state_of (watchLoop instant_build no_options idle [(0, RecvEvent write_event)]))
     [(200 * Millisecond, RecvEvent write_event), (250 * Millisecond, RecvEvent write_event)] = 0"
    unfolding idle_first
    by (simp add: rebuilds_triggered_def idle_def handleEvent_def q time_Since_def maxDuration_def
        debounceDuration_def Millisecond_def)
  then have r: "rebuilds_triggered instant_build no_options
     (state_of (watchLoop instant_build no_options idle [(0, RecvEvent write_event)]))
     [(200 * Millisecond, RecvEvent write_event), (250 * Millisecond, RecvEvent write_event)] \<noteq> 1"
    by simp
  have l: "lastBuildTime (state_of (watchLoop instant_build no_options idle [(0, RecvEvent write_event)])) =
     Some (100 * Millisecond)"
    unfolding idle_first by (simp add: idle_def)
  from q l r show ?thesis by blast
qed

text \<open>
  Claim C6. \<open>s\<close> is the state of the loop before it takes an event that passes the
  gate at the instant it is received. When the build function returns an error, the
  change and the error are logged, the Hub and the connections are as before and the
  trace has no new broadcast; when it returns none, the trace gains one broadcast of
  \<open>reload\<close>, which is the pass of \<^verbatim>\<open>broadcastMessage\<close> over the Hub. Either way the
  loop goes on with the next message, and it returns only when a channel is closed.
\<close>

theorem rebuild_result:
  assumes "accepted event (s\<lparr>now := max (now s) t\<rparr>)"
  shows "(\<forall>e. snd (buildFunc opts (max (now s) t + 100 * Millisecond)) = Some e \<longrightarrow>
            logged (world (handleEvent buildFunc opts event (s\<lparr>now := max (now s) t\<rparr>))) =
              logged (world s) @ [''Change detected in '' @ ev_Name event @ '', rebuilding...'',
                                  ''Error rebuilding site: '' @ e] \<and>
            hub (handleEvent buildFunc opts event (s\<lparr>now := max (now s) t\<rparr>)) = hub s \<and>
            conns (world (handleEvent buildFunc opts event (s\<lparr>now := max (now s) t\<rparr>))) = conns (world s) \<and>
            broadcasts (trace (handleEvent buildFunc opts event (s\<lparr>now := max (now s) t\<rparr>))) =
              broadcasts (trace s)) \<and>
         (snd (buildFunc opts (max (now s) t + 100 * Millisecond)) = None \<longrightarrow>
            trace (handleEvent buildFunc opts event (s\<lparr>now := max (now s) t\<rparr>)) =
              trace s @ [Slept (100 * Millisecond), Built (max (now s) t + 100 * Millisecond) None,
                         Broadcast ''reload''] \<and>
            broadcasts (trace (handleEvent buildFunc opts event (s\<lparr>now := max (now s) t\<rparr>))) =
              Suc (broadcasts (trace s)) \<and>
            (hub (handleEvent buildFunc opts event (s\<lparr>now := max (now s) t\<rparr>)),
             world (handleEvent buildFunc opts event (s\<lparr>now := max (now s) t\<rparr>))) =
              broadcastMessage ''reload''
                (hub s, log_Println ''Site rebuilt successfully. Triggering reload...''
                   (log_Println (''Change detected in '' @ ev_Name event @ '', rebuilding...'') (world s)))) \<and>
         watchLoop buildFunc opts s ((t, RecvEvent event) # rest) =
           watchLoop buildFunc opts (handleEvent buildFunc opts event (s\<lparr>now := max (now s) t\<rparr>)) rest \<and>
         ((\<forall>(t', i) \<in> set rest. i \<noteq> EventsClosed \<and> i \<noteq> ErrorsClosed) \<longrightarrow>
            (\<exists>s'. watchLoop buildFunc opts s ((t, RecvEvent event) # rest) = Waiting s'))"
proof -
  let ?s1 = "s\<lparr>now := max (now s) t\<rparr>"
  obtain d err where b: "buildFunc opts (now ?s1 + 100 * Millisecond) = (d, err)"
    by (cases "buildFunc opts (now ?s1 + 100 * Millisecond)")
  have fail: "logged (world (handleEvent buildFunc opts event ?s1)) =
              logged (world s) @ [''Change detected in '' @ ev_Name event @ '', rebuilding...'',
                                  ''Error rebuilding site: '' @ e] \<and>
            hub (handleEvent buildFunc opts event ?s1) = hub s \<and>
            conns (world (handleEvent buildFunc opts event ?s1)) = conns (world s) \<and>
            broadcasts (trace (handleEvent buildFunc opts event ?s1)) = broadcasts (trace s)"
    if "err = Some e" for e
    using handleEvent_failed [OF assms, of buildFunc opts d e] b that
    by (simp add: log_Println_def broadcasts_append)
  have ok: "trace (handleEvent buildFunc opts event ?s1) =
              trace s @ [Slept (100 * Millisecond), Built (max (now s) t + 100 * Millisecond) None,
                         Broadcast ''reload''] \<and>
            broadcasts (trace (handleEvent buildFunc opts event ?s1)) = Suc (broadcasts (trace s)) \<and>
            (hub (handleEvent buildFunc opts event ?s1), world (handleEvent buildFunc opts event ?s1)) =
              broadcastMessage ''reload''
                (hub s, log_Println ''Site rebuilt successfully. Triggering reload...''
                   (log_Println (''Change detected in '' @ ev_Name event @ '', rebuilding...'') (world s)))"
    if "err = None"
    using handleEvent_succeeded [OF assms, of buildFunc opts d] b that
    by (simp add: broadcasts_append)
  have waits: "\<exists>s'. watchLoop buildFunc opts s ((t, RecvEvent event) # rest) = Waiting s'"
    if "\<forall>(t', i) \<in> set rest. i \<noteq> EventsClosed \<and> i \<noteq> ErrorsClosed"
    using that by (intro watchLoop_waits) simp
  from fail ok waits b show ?thesis by (simp add: broadcasts_append)
qed

text \<open>
  An instance: the same event with a build that fails and with a build that succeeds.
\<close>

theorem rebuild_result_witness:
  "accepted write_event (idle\<lparr>now := max (now idle) 0\<rparr>) \<and>
   snd (failing_build no_options (max (now idle) 0 + 100 * Millisecond)) =
     Some ''content file is not valid UTF-8: content/post.md'' \<and>
   logged (world (handleEvent failing_build no_options write_event (idle\<lparr>now := max (now idle) 0\<rparr>))) =
     [''Change detected in content/post.md, rebuilding...'',
      ''Error rebuilding site: content file is not valid UTF-8: content/post.md''] \<and>
   broadcasts (trace (handleEvent failing_build no_options write_event (idle\<lparr>now := max (now idle) 0\<rparr>))) = 0 \<and>
   snd (instant_build no_options (max (now idle) 0 + 100 * Millisecond)) = None \<and>
   broadcasts (trace (handleEvent instant_build no_options write_event (idle\<lparr>now := max (now idle) 0\<rparr>))) = 1 \<and>
   (\<exists>s'. watchLoop failing_build no_options idle
       [(0, RecvEvent write_event), (0, RecvError ''overflow'')] = Waiting s')"
proof -
  have a: "accepted write_event (idle\<lparr>now := max (now idle) 0\<rparr>)"
    by (simp add: accepted_def qualifies_def Has_def write_event_def idle_def time_Since_def
        maxDuration_def debounceDuration_def Millisecond_def)
  have f: "snd (failing_build no_options (max (now idle) 0 + 100 * Millisecond)) =
     Some ''content file is not valid UTF-8: content/post.md''"
    by (simp add: failing_build_def)
  have i: "snd (instant_build no_options (max (now idle) 0 + 100 * Millisecond)) = None"
    by (simp add: instant_build_def)
  have e: "ev_Name write_event = ''content/post.md''" "logged (world idle) = []" "trace idle = []"
    by (simp_all add: write_event_def idle_def)
  from rebuild_result [OF a, of failing_build no_options "[(0, RecvError ''overflow'')]"]
    rebuild_result [OF a, of instant_build no_options "[]"] a f i e
  show ?thesis by simp
qed


section \<open>Properties of the build pipeline\<close>

lemma Walk_without:
  assumes "\<And>st. fn e st = (None, st)"
  shows "Walk fn (filter (\<lambda>x. x \<noteq> e) es) st = Walk fn es st"
proof (induction es arbitrary: st)
  case Nil
  then show ?case by simp
next
  case (Cons x es)
  then show ?case by (cases "x = e") (simp_all add: assms split: prod.splits option.splits)
qed





lemma removeEntries_walk_update:
  "removeEntries (os\<lparr>filepath_Walk := w\<rparr>) outputDir names fs = removeEntries os outputDir names fs"
  by (induction names arbitrary: fs) (simp_all split: prod.splits option.splits)

lemma renderPage_walk_update:
  "renderPage (os\<lparr>filepath_Walk := w\<rparr>) tmpl outPath data fs = renderPage os tmpl outPath data fs"
  by (simp add: renderPage_def cong: option.case_cong prod.case_cong)

lemma writePage_walk_update:
  "writePage (os\<lparr>filepath_Walk := w\<rparr>) outputDir site tmpl path ext meta htmlOut relPath =
   writePage os outputDir site tmpl path ext meta htmlOut relPath"
  by (simp add: writePage_def renderPage_walk_update ComputeBaseHref_def Let_def fun_eq_iff
      cong: option.case_cong prod.case_cong)

lemma contentVisit_walk_update:
  "contentVisit (os\<lparr>filepath_Walk := w\<rparr>) libs outputDir contentDir site tmpl opts =
   contentVisit os libs outputDir contentDir site tmpl opts"
  by (simp add: contentVisit_def writePage_walk_update Let_def fun_eq_iff
      cong: option.case_cong sum.case_cong prod.case_cong if_cong)

lemma staticVisit_walk_update:
  "staticVisit (os\<lparr>filepath_Walk := w\<rparr>) staticDir outputDir = staticVisit os staticDir outputDir"
  by (simp add: staticVisit_def Let_def fun_eq_iff
      cong: option.case_cong sum.case_cong prod.case_cong if_cong)

lemma contentVisit_regular:
  assumes "we_err e = None" and "\<not> we_IsDir e"
    and "filepath_Ext (we_Name e) = ''.md'' \<or> filepath_Ext (we_Name e) = ''.html''"
    and "os_ReadFile os (we_path e) fs = Inr raw"
    and "utf8_Valid libs raw"
    and "processContent libs raw opts = (meta, htmlOut, None)"
    and "filepath_Rel os contentDir (we_path e) = Inr relPath"
  shows "contentVisit os libs outputDir contentDir site tmpl opts e (fs, n) =
           (if meta_Draft meta \<and> \<not> isExceptionPage (TrimSuffix relPath (filepath_Ext (we_Name e)))
            then (None, fs, n)
            else writePage os outputDir site tmpl (we_path e) (filepath_Ext (we_Name e)) meta htmlOut
                   relPath (fs, n))"
  using assms by (auto simp: contentVisit_def Let_def)

lemma staticVisit_page:
  assumes "filepath_Ext (we_Name e) = ''.md'' \<or> filepath_Ext (we_Name e) = ''.html''"
  shows "staticVisit os staticDir outputDir e fs =
           (case we_err e of Some err \<Rightarrow> (Some err, fs) | None \<Rightarrow> (None, fs))"
  using assms by (auto simp: staticVisit_def allowedExts_def split: option.splits)

lemma writePage_counts:
  "fst (writePage os outputDir site tmpl path ext meta htmlOut relPath (fs, n)) = None \<Longrightarrow>
     snd (snd (writePage os outputDir site tmpl path ext meta htmlOut relPath (fs, n))) = Suc n"
  by (auto simp: writePage_def Let_def split: prod.splits option.splits split del: if_split)

lemma Walk_through:
  "Walk fn (xs @ y # ys) st = (None, st') \<Longrightarrow>
     \<exists>s1 s2. Walk fn xs st = (None, s1) \<and> fn y s1 = (None, s2) \<and> Walk fn ys s2 = (None, st')"
proof (induction xs arbitrary: st)
  case Nil
  then show ?case by (auto split: prod.splits option.splits)
next
  case (Cons x xs)
  obtain r s where x: "fn x st = (r, s)" by (cases "fn x st")
  with Cons.prems have r: "r = None" and rest: "Walk fn (xs @ y # ys) s = (None, st')"
    by (auto split: option.splits)
  from Cons.IH [OF rest] x r show ?case by simp
qed

lemma writePage_written:
  assumes "writePage os outputDir site tmpl path ext meta htmlOut relPath (fs, n) = (None, fs', n')"
  shows "n' = Suc n \<and>
         (\<exists>fs1 fs2 data out.
            os_MkdirAll os (filepath_Dir os (filepath_Join os outputDir (TrimSuffix relPath ext @ ''.html'')))
              fs = (None, fs1) \<and>
            os_Create os (filepath_Join os outputDir (TrimSuffix relPath ext @ ''.html'')) fs1 = (None, fs2) \<and>
            pd_Content data = htmlOut \<and> tmpl data = (out, None) \<and>
            file_Write os (filepath_Join os outputDir (TrimSuffix relPath ext @ ''.html'')) out fs2 =
              (None, fs'))"
proof -
  let ?out = "filepath_Join os outputDir (TrimSuffix relPath ext @ ''.html'')"
  obtain r1 fs1 where m: "os_MkdirAll os (filepath_Dir os ?out) fs = (r1, fs1)"
    by (cases "os_MkdirAll os (filepath_Dir os ?out) fs")
  with assms have r1: "r1 = None"
    by (cases r1) (simp_all add: writePage_def Let_def)
  define data where "data =
     (let pageData =
               \<lparr>pd_Content = htmlOut,
                pd_Title = meta_Title meta,
                pd_BaseHref = ComputeBaseHref os relPath,
                pd_Author = [],
                pd_Description = meta_Description meta,
                pd_Site = site,
                pd_ShowEditML = meta_ShowEditML meta,
                pd_StoryTitle = meta_StoryTitle meta,
                pd_Params = meta_Params meta\<rparr>;
             pageData =
               (if meta_StoryAuthor meta \<noteq> [] then pageData\<lparr>pd_Author := meta_StoryAuthor meta\<rparr>
                else pageData\<lparr>pd_Author := site_Author site\<rparr>);
             pageData =
               (if pd_Description pageData = [] then pageData\<lparr>pd_Description := site_Description site\<rparr>
                else pageData)
      in pageData)"
  have c: "pd_Content data = htmlOut" by (simp add: data_def Let_def)
  have w: "writePage os outputDir site tmpl path ext meta htmlOut relPath (fs, n) =
      (case renderPage os tmpl ?out data fs1 of
         (Some err, fs) \<Rightarrow> (Some (''failed to render page '' @ path @ '': '' @ err), fs, n)
       | (None, fs) \<Rightarrow> (None, fs, n + 1))"
    using m r1 by (simp add: writePage_def data_def Let_def)
  obtain r2 fs3 where rp: "renderPage os tmpl ?out data fs1 = (r2, fs3)"
    by (cases "renderPage os tmpl ?out data fs1")
  with assms w have r2: "r2 = None" and e: "fs' = fs3" "n' = Suc n"
    by (cases r2; simp)+
  obtain r3 fs2 where cr: "os_Create os ?out fs1 = (r3, fs2)" by (cases "os_Create os ?out fs1")
  with rp r2 have r3: "r3 = None" by (cases r3) (simp_all add: renderPage_def)
  obtain out x where t: "tmpl data = (out, x)" by (cases "tmpl data")
  obtain r4 fs4 where fw: "file_Write os ?out out fs2 = (r4, fs4)" by (cases "file_Write os ?out out fs2")
  from rp r2 cr r3 t fw have "r4 = None" "x = None" "fs4 = fs3"
    by (cases r4; simp add: renderPage_def)+
  with m r1 cr r3 t fw e c show ?thesis by blast
qed

lemma writePage_mono:
  "writePage os outputDir site tmpl path ext meta htmlOut relPath (fs, n) = (r, fs', n') \<Longrightarrow> n \<le> n'"
  by (auto simp: writePage_def Let_def split: prod.splits option.splits split del: if_split)

lemma contentVisit_mono:
  "contentVisit os libs outputDir contentDir site tmpl opts e (fs, n) = (r, fs', n') \<Longrightarrow> n \<le> n'"
  by (auto simp: contentVisit_def Let_def dest: writePage_mono
      split: prod.splits option.splits sum.splits if_splits)

lemma Walk_mono:
  "Walk (contentVisit os libs outputDir contentDir site tmpl opts) es (fs, n) = (r, fs', n') \<Longrightarrow> n \<le> n'"
proof (induction es arbitrary: fs n)
  case Nil
  then show ?case by simp
next
  case (Cons e es)
  obtain r1 fs1 n1 where v: "contentVisit os libs outputDir contentDir site tmpl opts e (fs, n) = (r1, fs1, n1)"
    by (cases "contentVisit os libs outputDir contentDir site tmpl opts e (fs, n)")
  then have le: "n \<le> n1" by (rule contentVisit_mono)
  show ?case
  proof (cases r1)
    case None
    with Cons.prems v have "Walk (contentVisit os libs outputDir contentDir site tmpl opts) es (fs1, n1) = (r, fs', n')"
      by simp
    from Cons.IH [OF this] le show ?thesis by simp
  next
    case (Some err)
    with Cons.prems v le show ?thesis by simp
  qed
qed

lemma BuildSite_succeeded:
  assumes "BuildSite os libs outputDir contentDir staticDir site tmpl opts fs = ((count, None), fs')"
  shows "\<exists>fs0 fs3.
           Walk (contentVisit os libs outputDir contentDir site tmpl opts)
             (filepath_Walk os contentDir fs0) (fs0, 0) = (None, fs3, count) \<and>
           copyStaticAssets os staticDir outputDir fs3 = (None, fs')"
  using assms
  by (auto simp: BuildSite_def split: prod.splits option.splits sum.splits if_splits)

lemma exception_page_emitted:
  assumes "we_err e = None" and "\<not> we_IsDir e"
    and "filepath_Ext (we_Name e) = ''.md'' \<or> filepath_Ext (we_Name e) = ''.html''"
    and "\<And>fs. os_ReadFile os (we_path e) fs = Inr raw"
    and "utf8_Valid libs raw"
    and "processContent libs raw opts = (meta, htmlOut, None)"
    and "filepath_Rel os contentDir (we_path e) = Inr relPath"
    and x: "isExceptionPage (TrimSuffix relPath (filepath_Ext (we_Name e)))"
    and tree: "\<And>fs. e \<in> set (filepath_Walk os contentDir fs)"
    and ok: "BuildSite os libs outputDir contentDir staticDir site tmpl opts fs = ((count, None), fs')"
  shows "1 \<le> count \<and>
         (\<exists>before after fs0 fs1 k fs2 fs3.
            filepath_Walk os contentDir fs0 = before @ e # after \<and>
            Walk (contentVisit os libs outputDir contentDir site tmpl opts) before (fs0, 0) = (None, fs1, k) \<and>
            writePage os outputDir site tmpl (we_path e) (filepath_Ext (we_Name e)) meta htmlOut relPath
              (fs1, k) = (None, fs2, Suc k) \<and>
            Walk (contentVisit os libs outputDir contentDir site tmpl opts) after (fs2, Suc k) =
              (None, fs3, count) \<and>
            copyStaticAssets os staticDir outputDir fs3 = (None, fs'))"
proof -
  let ?visit = "contentVisit os libs outputDir contentDir site tmpl opts"
  from BuildSite_succeeded [OF ok] obtain fs0 fs3 where
    w: "Walk ?visit (filepath_Walk os contentDir fs0) (fs0, 0) = (None, fs3, count)" and
    c: "copyStaticAssets os staticDir outputDir fs3 = (None, fs')"
    by blast
  from tree [of fs0] obtain before after where
    sp: "filepath_Walk os contentDir fs0 = before @ e # after"
    by (auto dest: split_list)
  from Walk_through [of ?visit before e after "(fs0, 0)" "(fs3, count)"] w sp
  obtain s1 s2 where
    b: "Walk ?visit before (fs0, 0) = (None, s1)" and v: "?visit e s1 = (None, s2)" and
    a: "Walk ?visit after s2 = (None, fs3, count)"
    by auto
  obtain fs1 k where s1: "s1 = (fs1, k)" by (cases s1)
  obtain fs2 k' where s2: "s2 = (fs2, k')" by (cases s2)
  from contentVisit_regular [where fs = fs1 and n = k, OF assms(1-3) assms(4) assms(5-7)] x v s1 s2
  have wp: "writePage os outputDir site tmpl (we_path e) (filepath_Ext (we_Name e)) meta htmlOut relPath
              (fs1, k) = (None, fs2, k')"
    by simp
  from writePage_written [OF wp] have k': "k' = Suc k" by simp
  from Walk_mono [of os libs outputDir contentDir site tmpl opts after fs2 k' None fs3 count] a s2
  have "k' \<le> count" by simp
  with k' have "1 \<le> count" by simp
  moreover from sp b s1 wp k' a s2 c
  have "\<exists>before after fs0 fs1 k fs2 fs3.
            filepath_Walk os contentDir fs0 = before @ e # after \<and>
            Walk ?visit before (fs0, 0) = (None, fs1, k) \<and>
            writePage os outputDir site tmpl (we_path e) (filepath_Ext (we_Name e)) meta htmlOut relPath
              (fs1, k) = (None, fs2, Suc k) \<and>
            Walk ?visit after (fs2, Suc k) = (None, fs3, count) \<and>
            copyStaticAssets os staticDir outputDir fs3 = (None, fs')"
    by blast
  ultimately show ?thesis by blast
qed

lemma draft_doc_parsed:
  "processContent simple_libs ''---\<newline>draft: true\<newline>---\<newline>hello'' no_options =
     (emptyPageMeta\<lparr>meta_Draft := True\<rparr>, ''\<newline>hello'', None)"
proof -
  have "SplitN ''---\<newline>draft: true\<newline>---\<newline>hello'' ''---'' 3 =
          ['''', ''\<newline>draft: true\<newline>'', ''\<newline>hello'']"
    by (simp add: SplitN_def HasPrefix_def numeral_2_eq_2)
  moreover have "Index ''\<newline>draft: true\<newline>'' ''draft: true'' = Some 1"
    by (simp add: HasPrefix_def)
  ultimately show ?thesis
    by (simp add: processContent_def Let_def simple_libs_def no_options_def)
qed

lemma Ext_md: "filepath_Ext ''post.md'' = ''.md''" "filepath_Ext ''index.md'' = ''.md''"
  by (simp_all add: filepath_Ext_def PathSeparator_def)

text \<open>
  Claim C4. \<open>e\<close> is a content document: a file with extension \<open>.md\<close> or \<open>.html\<close>
  that is read (whatever the build has written so far), is valid UTF-8, is parsed to
  \<open>meta\<close> and has the relative path \<open>relPath\<close>; its slug is \<open>relPath\<close> without the
  extension. If its draft flag is set and its slug is not on the allow-list, visiting it
  changes neither the file system nor the page count, and the whole build returns the
  page count and leaves the file system that it would with the document absent from
  the tree. If its slug is \<open>index\<close> or \<open>about\<close>, the draft flag plays no part: the
  visit is the writing of the page, and when that succeeds the page is counted; a
  page is written by creating the directory of \<open>outputDir/slug.html\<close>, creating that
  file and writing to it what the template makes of the rendered document; and every
  build that returns without error, of a tree that holds the document, has written its
  page on the way (after the entries before it, before the entries after it) and
  returns a page count of at least one.
\<close>

theorem draft_filter:
  assumes "we_err e = None" and "\<not> we_IsDir e"
    and "filepath_Ext (we_Name e) = ''.md'' \<or> filepath_Ext (we_Name e) = ''.html''"
    and "\<And>fs. os_ReadFile os (we_path e) fs = Inr raw"
    and "utf8_Valid libs raw"
    and "processContent libs raw opts = (meta, htmlOut, None)"
    and "filepath_Rel os contentDir (we_path e) = Inr relPath"
  shows "(meta_Draft meta \<and> \<not> isExceptionPage (TrimSuffix relPath (filepath_Ext (we_Name e))) \<longrightarrow>
            contentVisit os libs outputDir contentDir site tmpl opts e (fs, n) = (None, fs, n) \<and>
            BuildSite (os\<lparr>filepath_Walk := \<lambda>root fs. filter (\<lambda>x. x \<noteq> e) (filepath_Walk os root fs)\<rparr>)
                libs outputDir contentDir staticDir site tmpl opts fs =
              BuildSite os libs outputDir contentDir staticDir site tmpl opts fs) \<and>
         (TrimSuffix relPath (filepath_Ext (we_Name e)) = ''index'' \<or>
          TrimSuffix relPath (filepath_Ext (we_Name e)) = ''about'' \<longrightarrow>
            contentVisit os libs outputDir contentDir site tmpl opts e (fs, n) =
              writePage os outputDir site tmpl (we_path e) (filepath_Ext (we_Name e)) meta htmlOut
                relPath (fs, n) \<and>
            (fst (contentVisit os libs outputDir contentDir site tmpl opts e (fs, n)) = None \<longrightarrow>
               snd (snd (contentVisit os libs outputDir contentDir site tmpl opts e (fs, n))) = Suc n) \<and>
            (writePage os outputDir site tmpl (we_path e) (filepath_Ext (we_Name e)) meta htmlOut
                relPath (fsa, k) = (None, fsb, k') \<longrightarrow>
               k' = Suc k \<and>
               (\<exists>fs1 fs2 data out.
                  os_MkdirAll os
                    (filepath_Dir os (filepath_Join os outputDir
                       (TrimSuffix relPath (filepath_Ext (we_Name e)) @ ''.html''))) fsa = (None, fs1) \<and>
                  os_Create os (filepath_Join os outputDir
                       (TrimSuffix relPath (filepath_Ext (we_Name e)) @ ''.html'')) fs1 = (None, fs2) \<and>
                  pd_Content data = htmlOut \<and> tmpl data = (out, None) \<and>
                  file_Write os (filepath_Join os outputDir
                       (TrimSuffix relPath (filepath_Ext (we_Name e)) @ ''.html'')) out fs2 = (None, fsb))) \<and>
            ((\<forall>fs. e \<in> set (filepath_Walk os contentDir fs)) \<and>
             BuildSite os libs outputDir contentDir staticDir site tmpl opts fs = ((count, None), fs') \<longrightarrow>
               1 \<le> count \<and>
               (\<exists>before after fs0 fs1 k fs2 fs3.
                  filepath_Walk os contentDir fs0 = before @ e # after \<and>
                  Walk (contentVisit os libs outputDir contentDir site tmpl opts) before (fs0, 0) =
                    (None, fs1, k) \<and>
                  writePage os outputDir site tmpl (we_path e) (filepath_Ext (we_Name e)) meta htmlOut
                    relPath (fs1, k) = (None, fs2, Suc k) \<and>
                  Walk (contentVisit os libs outputDir contentDir site tmpl opts) after (fs2, Suc k) =
                    (None, fs3, count) \<and>
                  copyStaticAssets os staticDir outputDir fs3 = (None, fs'))))"
proof -
  have skipped:
    "contentVisit os libs outputDir contentDir site tmpl opts e (fs, n) = (None, fs, n) \<and>
     BuildSite (os\<lparr>filepath_Walk := \<lambda>root fs. filter (\<lambda>x. x \<noteq> e) (filepath_Walk os root fs)\<rparr>)
         libs outputDir contentDir staticDir site tmpl opts fs =
       BuildSite os libs outputDir contentDir staticDir site tmpl opts fs"
    if d: "meta_Draft meta \<and> \<not> isExceptionPage (TrimSuffix relPath (filepath_Ext (we_Name e)))"
  proof
    have skip: "contentVisit os libs outputDir contentDir site tmpl opts e st = (None, st)" for st
      using contentVisit_regular [where fs = "fst st" and n = "snd st", OF assms(1-3) assms(4) assms(5-7)] d
      by simp
    from skip [of "(fs, n)"]
    show "contentVisit os libs outputDir contentDir site tmpl opts e (fs, n) = (None, fs, n)" by simp
    let ?os = "os\<lparr>filepath_Walk := \<lambda>root fs. filter (\<lambda>x. x \<noteq> e) (filepath_Walk os root fs)\<rparr>"
    have static: "staticVisit os staticDir outputDir e st = (None, st)" for st
      using staticVisit_page [OF assms(3)] assms(1) by simp
    have c: "Walk (contentVisit os libs outputDir contentDir site tmpl opts)
               (filter (\<lambda>x. x \<noteq> e) es) st =
             Walk (contentVisit os libs outputDir contentDir site tmpl opts) es st" for es st
      by (rule Walk_without) (rule skip)
    have s: "copyStaticAssets ?os staticDir outputDir st = copyStaticAssets os staticDir outputDir st" for st
      unfolding copyStaticAssets_def staticVisit_walk_update
      by (simp add: Walk_without [of "staticVisit os staticDir outputDir", OF static])
    show "BuildSite ?os libs outputDir contentDir staticDir site tmpl opts fs =
          BuildSite os libs outputDir contentDir staticDir site tmpl opts fs"
      unfolding BuildSite_def contentVisit_walk_update removeEntries_walk_update s
      by (simp add: c cong: option.case_cong sum.case_cong prod.case_cong if_cong)
  qed
  have x: "isExceptionPage (TrimSuffix relPath (filepath_Ext (we_Name e)))"
    if "TrimSuffix relPath (filepath_Ext (we_Name e)) = ''index'' \<or>
        TrimSuffix relPath (filepath_Ext (we_Name e)) = ''about''"
    using that by (auto simp: isExceptionPage_def)
  have w: "contentVisit os libs outputDir contentDir site tmpl opts e (fs, n) =
              writePage os outputDir site tmpl (we_path e) (filepath_Ext (we_Name e)) meta htmlOut
                relPath (fs, n)"
    if "isExceptionPage (TrimSuffix relPath (filepath_Ext (we_Name e)))"
    using contentVisit_regular [where fs = fs and n = n, OF assms(1-3) assms(4) assms(5-7)] that
    by simp
  have counted: "snd (snd (contentVisit os libs outputDir contentDir site tmpl opts e (fs, n))) = Suc n"
    if "isExceptionPage (TrimSuffix relPath (filepath_Ext (we_Name e)))"
      and "fst (contentVisit os libs outputDir contentDir site tmpl opts e (fs, n)) = None"
    using that w by (simp add: writePage_counts)
  note written = writePage_written [where os = os and outputDir = outputDir and site = site
      and tmpl = tmpl and path = "we_path e" and ext = "filepath_Ext (we_Name e)" and meta = meta
      and htmlOut = htmlOut and relPath = relPath and fs = fsa and n = k and fs' = fsb and n' = k']
  note built = exception_page_emitted [where outputDir = outputDir and site = site and tmpl = tmpl
      and staticDir = staticDir and fs = fs and count = count and fs' = fs',
      OF assms(1-3) assms(4) assms(5-7)]
  show ?thesis
  proof (intro conjI impI)
    assume "meta_Draft meta \<and> \<not> isExceptionPage (TrimSuffix relPath (filepath_Ext (we_Name e)))"
    from skipped [OF this]
    show "contentVisit os libs outputDir contentDir site tmpl opts e (fs, n) = (None, fs, n)"
      and "BuildSite (os\<lparr>filepath_Walk := \<lambda>root fs. filter (\<lambda>x. x \<noteq> e) (filepath_Walk os root fs)\<rparr>)
         libs outputDir contentDir staticDir site tmpl opts fs =
       BuildSite os libs outputDir contentDir staticDir site tmpl opts fs"
      by simp_all
  next
    assume a: "TrimSuffix relPath (filepath_Ext (we_Name e)) = ''index'' \<or>
          TrimSuffix relPath (filepath_Ext (we_Name e)) = ''about''"
    from w [OF x [OF a]]
    show "contentVisit os libs outputDir contentDir site tmpl opts e (fs, n) =
              writePage os outputDir site tmpl (we_path e) (filepath_Ext (we_Name e)) meta htmlOut
                relPath (fs, n)" .
    {
      assume "fst (contentVisit os libs outputDir contentDir site tmpl opts e (fs, n)) = None"
      from counted [OF x [OF a] this]
      show "snd (snd (contentVisit os libs outputDir contentDir site tmpl opts e (fs, n))) = Suc n" .
    }
    {
      assume wp: "writePage os outputDir site tmpl (we_path e) (filepath_Ext (we_Name e)) meta htmlOut
                relPath (fsa, k) = (None, fsb, k')"
      from written [OF wp] show "k' = Suc k" by simp
      from written [OF wp]
      show "\<exists>fs1 fs2 data out.
                  os_MkdirAll os
                    (filepath_Dir os (filepath_Join os outputDir
                       (TrimSuffix relPath (filepath_Ext (we_Name e)) @ ''.html''))) fsa = (None, fs1) \<and>
                  os_Create os (filepath_Join os outputDir
                       (TrimSuffix relPath (filepath_Ext (we_Name e)) @ ''.html'')) fs1 = (None, fs2) \<and>
                  pd_Content data = htmlOut \<and> tmpl data = (out, None) \<and>
                  file_Write os (filepath_Join os outputDir
                       (TrimSuffix relPath (filepath_Ext (we_Name e)) @ ''.html'')) out fs2 = (None, fsb)"
        by simp
    }
    {
      assume b: "(\<forall>fs. e \<in> set (filepath_Walk os contentDir fs)) \<and>
             BuildSite os libs outputDir contentDir staticDir site tmpl opts fs = ((count, None), fs')"
      from built [OF x [OF a]] b
      show "1 \<le> count" by simp
      from built [OF x [OF a]] b
      show "\<exists>before after fs0 fs1 k fs2 fs3.
                  filepath_Walk os contentDir fs0 = before @ e # after \<and>
                  Walk (contentVisit os libs outputDir contentDir site tmpl opts) before (fs0, 0) =
                    (None, fs1, k) \<and>
                  writePage os outputDir site tmpl (we_path e) (filepath_Ext (we_Name e)) meta htmlOut
                    relPath (fs1, k) = (None, fs2, Suc k) \<and>
                  Walk (contentVisit os libs outputDir contentDir site tmpl opts) after (fs2, Suc k) =
                    (None, fs3, count) \<and>
                  copyStaticAssets os staticDir outputDir fs3 = (None, fs')"
        by simp
    }
  qed
qed

text \<open>
  An instance: a tree that holds only the draft \<open>post.md\<close> builds to no file and the
  count 0; a tree that holds only \<open>index.md\<close> with the same text builds to the file
  \<open>public/index.html\<close> and the count 1.
\<close>

theorem draft_filter_witness:
  "meta_Draft (fst (processContent simple_libs ''---\<newline>draft: true\<newline>---\<newline>hello'' no_options)) \<and>
   \<not> isExceptionPage (TrimSuffix ''post.md'' (filepath_Ext ''post.md'')) \<and>
   BuildSite
     (simple_os [file_entry ''content/post.md'' ''post.md'']
        [(''content/post.md'', ''---\<newline>draft: true\<newline>---\<newline>hello'')])
     simple_libs ''public'' ''content'' ''static'' no_site content_template no_options [] =
     ((0, None), []) \<and>
   TrimSuffix ''index.md'' (filepath_Ext ''index.md'') = ''index'' \<and>
   contentVisit
     (simple_os [file_entry ''content/index.md'' ''index.md'']
        [(''content/index.md'', ''---\<newline>draft: true\<newline>---\<newline>hello'')])
     simple_libs ''public'' ''content'' no_site content_template no_options
     (file_entry ''content/index.md'' ''index.md'') ([], 0) =
     (None, [(''public/index.html'', ''\<newline>hello'')], 1) \<and>
   file_entry ''content/index.md'' ''index.md'' \<in>
     set (filepath_Walk
       (simple_os [file_entry ''content/index.md'' ''index.md'']
          [(''content/index.md'', ''---\<newline>draft: true\<newline>---\<newline>hello'')]) ''content'' []) \<and>
   BuildSite
     (simple_os [file_entry ''content/index.md'' ''index.md'']
        [(''content/index.md'', ''---\<newline>draft: true\<newline>---\<newline>hello'')])
     simple_libs ''public'' ''content'' ''static'' no_site content_template no_options [] =
     ((1, None), [(''public/index.html'', ''\<newline>hello'')])"
proof -
  let ?raw = "''---\<newline>draft: true\<newline>---\<newline>hello''"
  let ?meta = "emptyPageMeta\<lparr>meta_Draft := True\<rparr>"
  let ?e = "file_entry ''content/post.md'' ''post.md''"
  let ?os = "simple_os [?e] [(''content/post.md'', ?raw)]"
  let ?i = "file_entry ''content/index.md'' ''index.md''"
  let ?osi = "simple_os [?i] [(''content/index.md'', ?raw)]"
  have slug: "TrimSuffix ''post.md'' (filepath_Ext ''post.md'') = ''post''"
    "TrimSuffix ''index.md'' (filepath_Ext ''index.md'') = ''index''"
    by (simp_all add: Ext_md TrimSuffix_def HasSuffix_def)
  have nx: "\<not> isExceptionPage ''post''" by (simp add: isExceptionPage_def)
  have e1: "we_err ?e = None" "\<not> we_IsDir ?e" "we_err ?i = None" "\<not> we_IsDir ?i"
    by (simp_all add: file_entry_def)
  have e3: "filepath_Ext (we_Name ?e) = ''.md'' \<or> filepath_Ext (we_Name ?e) = ''.html''"
    "filepath_Ext (we_Name ?i) = ''.md'' \<or> filepath_Ext (we_Name ?i) = ''.html''"
    by (simp_all add: file_entry_def Ext_md)
  have rd: "os_ReadFile ?os (we_path ?e) fs = Inr ?raw" "os_ReadFile ?osi (we_path ?i) fs = Inr ?raw" for fs
    by (simp_all add: simple_os_def file_entry_def)
  have v: "utf8_Valid simple_libs ?raw" by (simp add: simple_libs_def)
  have rel: "filepath_Rel ?os ''content'' (we_path ?e) = Inr ''post.md''"
    "filepath_Rel ?osi ''content'' (we_path ?i) = Inr ''index.md''"
    by (simp_all add: simple_os_def file_entry_def HasPrefix_def)
  note post = draft_filter [where e = ?e and os = ?os and libs = simple_libs and opts = no_options
      and contentDir = "''content''" and outputDir = "''public''" and staticDir = "''static''"
      and site = no_site and tmpl = content_template and fs = "[]" and n = 0,
      OF e1(1) e1(2) e3(1) rd(1) v draft_doc_parsed rel(1)]
  have d: "meta_Draft ?meta" by simp
  have nm: "we_Name ?e = ''post.md''" "we_Name ?i = ''index.md''" by (simp_all add: file_entry_def)
  from post d nx slug(1) nm(1)
  have "BuildSite ?os simple_libs ''public'' ''content'' ''static'' no_site content_template no_options [] =
        BuildSite (?os\<lparr>filepath_Walk := \<lambda>root fs. filter (\<lambda>x. x \<noteq> ?e) (filepath_Walk ?os root fs)\<rparr>)
          simple_libs ''public'' ''content'' ''static'' no_site content_template no_options []"
    by simp
  also have "\<dots> = ((0, None), [])"
    by (simp add: BuildSite_def simple_os_def copyStaticAssets_def no_options_def)
  finally have b: "BuildSite ?os simple_libs ''public'' ''content'' ''static'' no_site content_template
      no_options [] = ((0, None), [])" .
  note index = draft_filter [where e = ?i and os = ?osi and libs = simple_libs and opts = no_options
      and contentDir = "''content''" and outputDir = "''public''" and staticDir = "''static''"
      and site = no_site and tmpl = content_template and fs = "[]" and n = 0,
      OF e1(3) e1(4) e3(2) rd(2) v draft_doc_parsed rel(2)]
  from index slug(2) nm(2)
  have "contentVisit ?osi simple_libs ''public'' ''content'' no_site content_template no_options ?i ([], 0) =
        writePage ?osi ''public'' no_site content_template (we_path ?i) (filepath_Ext ''index.md'')
          ?meta ''\<newline>hello'' ''index.md'' ([], 0)"
    by simp
  also have "\<dots> = (None, [(''public/index.html'', ''\<newline>hello'')], 1)"
    by (simp add: writePage_def Let_def slug(2) simple_os_def renderPage_def content_template_def
        ComputeBaseHref_def PathSeparator_def emptyPageMeta_def no_site_def)
  finally have c: "contentVisit ?osi simple_libs ''public'' ''content'' no_site content_template no_options
      ?i ([], 0) = (None, [(''public/index.html'', ''\<newline>hello'')], 1)" .
  have tree: "?i \<in> set (filepath_Walk ?osi ''content'' fs)" for fs
    by (simp add: simple_os_def)
  have cd: "\<not> CleanDestination no_options" by (simp add: no_options_def)
  have mk: "os_MkdirAll ?osi p fs = (None, fs)" for p fs by (simp add: simple_os_def)
  have wk: "filepath_Walk ?osi root fs = (if root = ''content'' then [?i] else [])" for root fs
    by (simp add: simple_os_def)
  have bi: "BuildSite ?osi simple_libs ''public'' ''content'' ''static'' no_site content_template
      no_options [] = ((1, None), [(''public/index.html'', ''\<newline>hello'')])"
    by (simp add: BuildSite_def mk wk c cd copyStaticAssets_def)
  from index slug(2) nm(2) tree bi
  have "(1::nat) \<le> 1" by simp
  with b c slug nx tree [of "[]"] bi show ?thesis by (simp add: draft_doc_parsed)
qed



text \<open>
  Claim C5 does not hold of \<^verbatim>\<open>processContent\<close>: it splits at the first two places
  where three dashes stand, wherever they stand. A document with no front matter and
  two horizontal rules is not taken as body: the text between the rules goes to the
  YAML parser (and its error fails the build), the text after the second rule alone is
  rendered, and the text before the first rule is dropped.
\<close>

theorem front_matter_split_anywhere:
  "processContent libs ''Intro\<newline>\<newline>---\<newline>\<newline>Middle\<newline>\<newline>---\<newline>\<newline>End\<newline>'' opts =
     (case yaml_Unmarshal libs ''\<newline>\<newline>Middle\<newline>\<newline>'' of
        Inl err \<Rightarrow> (emptyPageMeta, [], Some (''failed to parse front matter: '' @ err))
      | Inr meta \<Rightarrow>
          (case markdown_Convert libs ''\<newline>\<newline>End\<newline>'' of
             Inl err \<Rightarrow> (meta, [], Some (''failed to render markdown with goldmark: '' @ err))
           | Inr html \<Rightarrow> (meta, if Unsafe opts then html else SanitizeBytes libs html, None)))"
proof -
  have "SplitN ''Intro\<newline>\<newline>---\<newline>\<newline>Middle\<newline>\<newline>---\<newline>\<newline>End\<newline>'' ''---'' 3 =
          [''Intro\<newline>\<newline>'', ''\<newline>\<newline>Middle\<newline>\<newline>'', ''\<newline>\<newline>End\<newline>'']"
    by (simp add: SplitN_def HasPrefix_def numeral_2_eq_2)
  then show ?thesis
    by (simp add: processContent_def Let_def split: sum.splits)
qed


end
